theory Spec2Isabelle
  imports Complex_Main "HOL-Library.Sublist"
begin

section \<open>Python strings\<close>

text \<open>
  A Python \<open>str\<close> is a sequence of Unicode code points. The cleaner looks for the
  marker \<open>' \<diamond>'\<close> whose second character is U+2666, beyond one byte, so a string
  is modelled as the list of its code points and \<open>lit\<close> embeds an ASCII literal.
\<close>

type_synonym ustr = "nat list"

definition lit :: "string \<Rightarrow> ustr" where
  "lit s = map of_char s"

text \<open>The characters \<open>str.isspace\<close> accepts, which \<open>str.strip()\<close> and \<open>int()\<close> remove.\<close>

definition isspace :: "nat \<Rightarrow> bool" where
  "isspace c \<longleftrightarrow>
     (9 \<le> c \<and> c \<le> 13) \<or> (28 \<le> c \<and> c \<le> 32) \<or> c = 133 \<or> c = 160 \<or> c = 5760 \<or>
     (8192 \<le> c \<and> c \<le> 8202) \<or> c = 8232 \<or> c = 8233 \<or> c = 8239 \<or> c = 8287 \<or>
     c = 12288"

definition py_strip :: "ustr \<Rightarrow> ustr" where
  "py_strip s = rev (dropWhile isspace (rev (dropWhile isspace s)))"

text \<open>
  \<open>s.find(sub)\<close>: the index of the first occurrence of \<open>sub\<close> in \<open>s\<close>, or \<open>-1\<close>.
  \<open>find_idx\<close> is the search, \<open>py_find\<close> the integer Python returns.
\<close>

fun find_idx :: "'a list \<Rightarrow> 'a list \<Rightarrow> nat option" where
  "find_idx [] sub = (if sub = [] then Some 0 else None)"
| "find_idx (c # cs) sub =
     (if prefix sub (c # cs) then Some 0 else map_option Suc (find_idx cs sub))"

definition py_find :: "'a list \<Rightarrow> 'a list \<Rightarrow> int" where
  "py_find s sub = (case find_idx s sub of None \<Rightarrow> - 1 | Some i \<Rightarrow> int i)"

text \<open>
  \<open>s.replace(old, new)\<close> and \<open>s.split(sep)\<close> scan left to right over non-overlapping
  occurrences. Every call of the pipeline passes a non-empty literal for \<open>old\<close> and
  \<open>sep\<close>; with an empty one Python inserts \<open>new\<close> everywhere, respectively raises
  ValueError, which these two functions do not reproduce (they leave \<open>s\<close> whole).
\<close>

function py_replace :: "'a list \<Rightarrow> 'a list \<Rightarrow> 'a list \<Rightarrow> 'a list" where
  "py_replace [] old new = []"
| "py_replace (c # cs) old new =
     (if old \<noteq> [] \<and> prefix old (c # cs)
      then new @ py_replace (drop (length old) (c # cs)) old new
      else c # py_replace cs old new)"
  by pat_completeness auto
termination
  by (relation "measure (\<lambda>(s, old, new). length s)") (auto simp: neq_Nil_conv)

function py_split :: "'a list \<Rightarrow> 'a list \<Rightarrow> 'a list list" where
  "py_split [] sep = [[]]"
| "py_split (c # cs) sep =
     (if sep \<noteq> [] \<and> prefix sep (c # cs)
      then [] # py_split (drop (length sep) (c # cs)) sep
      else (case py_split cs sep of p # ps \<Rightarrow> (c # p) # ps | [] \<Rightarrow> [[c]]))"
  by pat_completeness auto
termination
  by (relation "measure (\<lambda>(s, sep). length s)") (auto simp: neq_Nil_conv)

section \<open>The field cleaner\<close>

definition diamond :: ustr where
  \<comment> \<open>the marker \<open>' \<diamond>'\<close>: a space and U+2666\<close>
  "diamond = [32, 9830]"

definition newline :: ustr where
  "newline = [10]"

text \<open>
  \<open>clean_text\<close>, statement by statement. The first test is \<open>if text.find(' \<diamond>'):\<close>,
  the truth value of the index itself: it is false only for index \<open>0\<close>, and true for
  \<open>-1\<close>; the other two tests compare with \<open>-1\<close>.
\<close>

definition clean_text :: "ustr \<Rightarrow> ustr" where
  "clean_text t =
    (let text1 = py_strip t;
         text2 = py_replace text1 (lit ''&nbsp'') [];
         text3 = (if py_find text2 diamond \<noteq> 0 then py_split text2 diamond ! 0 else text2);
         text4 = (if py_find text3 (lit ''['') \<noteq> - 1
                  then py_split text3 (lit ''['') ! 0 else text3);
         text5 = (if py_find text4 (lit '' (formerly)'') \<noteq> - 1
                  then py_split text4 (lit '' (formerly)'') ! 0 else text4)
     in py_replace text5 newline [])"

text \<open>
  The six rules as the specification words them, for comparison with \<open>clean_text\<close>:
  trim, remove \<open>'&nbsp'\<close>, truncate from each of the three markers onward if it is
  present, remove newlines.
\<close>

definition truncate_at :: "'a list \<Rightarrow> 'a list \<Rightarrow> 'a list" where
  "truncate_at s marker = (case find_idx s marker of None \<Rightarrow> s | Some i \<Rightarrow> take i s)"

definition remove_all :: "'a list \<Rightarrow> 'a list \<Rightarrow> 'a list" where
  "remove_all s old = py_replace s old []"

definition clean_text_spec :: "ustr \<Rightarrow> ustr" where
  "clean_text_spec t =
     remove_all
       (truncate_at
          (truncate_at
             (truncate_at (remove_all (py_strip t) (lit ''&nbsp'')) diamond)
             (lit ''[''))
          (lit '' (formerly)''))
       newline"

text \<open>A string the cleaner has nothing to do on.\<close>

definition is_clean :: "ustr \<Rightarrow> bool" where
  "is_clean s \<longleftrightarrow>
     py_strip s = s \<and> find_idx s (lit ''&nbsp'') = None \<and> find_idx s diamond = None \<and>
     find_idx s (lit ''['') = None \<and> find_idx s (lit '' (formerly)'') = None \<and>
     10 \<notin> set s"

text \<open>The first truncation as the code performs it: skipped when the marker is at index 0.\<close>

definition diamond_step :: "ustr \<Rightarrow> ustr" where
  "diamond_step t2 = (if find_idx t2 diamond = Some 0 then t2 else truncate_at t2 diamond)"

section \<open>Exceptions and the page\<close>

datatype exn =
  RequestException | TypeError | IndexError | AttributeError | ValueError | OverflowError |
  GeocoderServiceError | UnicodeEncodeError

definition and_then :: "exn + 'a \<Rightarrow> ('a \<Rightarrow> exn + 'b) \<Rightarrow> exn + 'b" where
  "and_then r f = (case r of Inl e \<Rightarrow> Inl e | Inr x \<Rightarrow> f x)"

text \<open>\<open>xs[k]\<close> for a literal \<open>k \<ge> 0\<close>: IndexError out of range.\<close>

definition item :: "'a list \<Rightarrow> nat \<Rightarrow> exn + 'a" where
  "item xs k = (if k < length xs then Inr (xs ! k) else Inl IndexError)"

text \<open>
  What the extract stage reads of the parsed page: of an \<open>img\<close> element its \<open>src\<close>
  attribute (\<open>get("src")\<close> is \<open>None\<close> when absent), of a \<open>td\<close> cell its \<open>.text\<close>
  and the result of \<open>find("img")\<close>, of a row the list \<open>find_all("td")\<close>.
\<close>

datatype img = Img (src: "ustr option")

datatype td = Td (td_text: ustr) (td_img: "img option")

type_synonym tr = "td list"

record geo_location =
  latitude :: real
  longitude :: real

section \<open>Records, the result store and the log\<close>

text \<open>
  One record per data row. \<open>capacity\<close> is text out of the extract stage and an integer
  after \<open>astype(int)\<close>; \<open>images\<close> may be \<open>None\<close> for the transform stage, which tests
  for it. A row of the data frame adds \<open>location\<close>.
\<close>

record 'c stadium_rec =
  rank :: int
  stadium :: ustr
  capacity :: 'c
  region :: ustr
  country :: ustr
  city :: ustr
  images :: "ustr option"
  home_team :: ustr

record 'c frame_row = "'c stadium_rec" +
  location :: "(real \<times> real) option"

datatype log_entry =
  Stdout string ustr | StdoutExn string exn | LogInfo string | LogError string exn

text \<open>
  The orchestrator's result store holds the value pushed under key \<open>rows\<close> by each of
  the two tasks (the JSON text is read back as the value it encodes).
\<close>

record task_state =
  xcom_extract :: "ustr stadium_rec list option"
  xcom_transform :: "int frame_row list option"
  logged :: "log_entry list"

definition say :: "log_entry \<Rightarrow> task_state \<Rightarrow> task_state" where
  "say entry st = st\<lparr>logged := logged st @ [entry]\<rparr>"

section \<open>The collaborators\<close>

text \<open>
  What the pipeline calls and does not contain:
  \<^item> the HTTP request (the page text, or the exception raised);
  \<^item> the HTML parser and selector (for each table matching
    \<open>table.wikitable.sortable\<close>, its \<open>tr\<close> rows);
  \<^item> the geocoding service: the exception a query raises, if any, and otherwise its
    answer (\<open>None\<close> when it resolves nothing);
  \<^item> the interpreter: the decimal value its Unicode database gives a non-ASCII
    character, and its limit on the digits of an integer string (\<open>0\<close>: no limit);
  \<^item> the JSON encoder of the data frame: the exception a frame raises, if any, and the
    value it writes for a float (ten decimals by default).
  Coordinates are floats that the pipeline only stores, compares and hands to the
  encoder; they are read as the real numbers they denote.
\<close>

record world =
  http_get :: "ustr \<Rightarrow> exn + ustr"
  select_tables :: "ustr \<Rightarrow> tr list list"
  geocode :: "ustr \<Rightarrow> geo_location option"
  geocode_raises :: "ustr \<Rightarrow> exn option"
  decimal_digit :: "nat \<Rightarrow> nat option"
  int_max_str_digits :: nat
  to_json_raises :: "int frame_row list \<Rightarrow> exn option"
  json_float :: "real \<Rightarrow> real"

section \<open>The extract stage\<close>

definition get_wikipedia_page :: "world \<Rightarrow> ustr \<Rightarrow> task_state \<Rightarrow> (exn + ustr option) \<times> task_state" where
  \<comment> \<open>only \<open>requests.RequestException\<close> is caught; the function then returns \<open>None\<close>\<close>
  "get_wikipedia_page w url st =
     (let st1 = say (Stdout ''Getting wikipedia page...'' url) st in
      case http_get w url of
        Inr body \<Rightarrow> (Inr (Some body), st1)
      | Inl e \<Rightarrow>
          if e = RequestException then (Inr None, say (StdoutExn ''An error occured: '' e) st1)
          else (Inl e, st1))"

definition get_wikipedia_data :: "world \<Rightarrow> ustr option \<Rightarrow> task_state \<Rightarrow> tr list option \<times> task_state" where
  \<comment> \<open>every exception is caught and logged; the function then returns \<open>None\<close>\<close>
  "get_wikipedia_data w html st =
     (let st1 = say (LogInfo ''Data retrieved from page...'') st in
      case html of
        None \<Rightarrow> (None, say (LogError ''could not get data due to '' TypeError) st1)
      | Some h \<Rightarrow>
          (case select_tables w h of
             [] \<Rightarrow> (None, say (LogError ''could not get data due to '' IndexError) st1)
           | table_rows # _ \<Rightarrow> (Some table_rows, st1)))"

definition image_url :: "td \<Rightarrow> exn + ustr" where
  "image_url cell =
     (case td_img cell of
        None \<Rightarrow> Inr (lit ''NO_IMAGE'')
      | Some im \<Rightarrow>
          (case src im of
             None \<Rightarrow> Inl AttributeError
           | Some s \<Rightarrow>
               (let parts = py_split s (lit ''//'') in
                if 1 < length parts then Inr (lit ''https://'' @ parts ! 1)
                else Inl IndexError)))"

text \<open>The body of the loop: the dictionary built for row \<open>i\<close>, entries in order.\<close>

definition map_row :: "int \<Rightarrow> tr \<Rightarrow> exn + ustr stadium_rec" where
  "map_row i tds =
     and_then (item tds 0) (\<lambda>c0.
     and_then (item tds 1) (\<lambda>c1.
     and_then (item tds 2) (\<lambda>c2.
     and_then (item tds 3) (\<lambda>c3.
     and_then (item tds 4) (\<lambda>c4.
     and_then (item tds 5) (\<lambda>c5.
     and_then (image_url c5) (\<lambda>url.
     and_then (item tds 6) (\<lambda>c6.
       Inr \<lparr>rank = i,
            stadium = clean_text (td_text c0),
            capacity = py_replace (py_replace (clean_text (td_text c1)) (lit '','') [])
                         (lit ''.'') [],
            region = clean_text (td_text c2),
            country = clean_text (td_text c3),
            city = clean_text (td_text c4),
            images = Some url,
            home_team = clean_text (td_text c6)\<rparr>))))))))"

text \<open>
  A row the loop body can map: seven cells at least, and an image cell with no \<open>img\<close>
  element or with one whose \<open>src\<close> is present and contains \<open>'//'\<close>.
\<close>

definition mappable :: "tr \<Rightarrow> bool" where
  "mappable tds \<longleftrightarrow>
     7 \<le> length tds \<and>
     (case td_img (tds ! 5) of
        None \<Rightarrow> True
      | Some im \<Rightarrow> (case src im of None \<Rightarrow> False | Some s \<Rightarrow> find_idx s (lit ''//'') \<noteq> None))"

text \<open>A loop that appends one result per element and stops at the first exception.\<close>

fun collect :: "('a \<Rightarrow> exn + 'b) \<Rightarrow> 'a list \<Rightarrow> exn + 'b list" where
  "collect f [] = Inr []"
| "collect f (x # xs) =
     (case f x of
        Inl e \<Rightarrow> Inl e
      | Inr y \<Rightarrow> (case collect f xs of Inl e \<Rightarrow> Inl e | Inr ys \<Rightarrow> Inr (y # ys)))"

definition map_rows :: "tr list \<Rightarrow> exn + ustr stadium_rec list" where
  \<comment> \<open>\<open>for i in range(1, len(rows))\<close>\<close>
  "map_rows rows = collect (\<lambda>i. map_row (int i) (rows ! i)) [1..<length rows]"

definition could_not_get_rows :: "exn \<Rightarrow> task_state \<Rightarrow> string option \<times> task_state" where
  \<comment> \<open>the \<open>except\<close> branch: log, fall off the end, return \<open>None\<close>\<close>
  "could_not_get_rows e st = (None, say (LogError ''could not get rows due to '' e) st)"

definition extract_wikipedia_data :: "world \<Rightarrow> ustr \<Rightarrow> task_state \<Rightarrow> string option \<times> task_state" where
  "extract_wikipedia_data w url st =
     (case get_wikipedia_page w url st of
        (Inl e, st1) \<Rightarrow> could_not_get_rows e st1
      | (Inr html, st1) \<Rightarrow>
          (case get_wikipedia_data w html st1 of
             (rows, st2) \<Rightarrow>
               (let st3 = say (LogInfo ''Rows retrieved'') st2 in
                case rows of
                  None \<Rightarrow> could_not_get_rows TypeError st3
                | Some rs \<Rightarrow>
                    (case map_rows rs of
                       Inl e \<Rightarrow> could_not_get_rows e st3
                     | Inr data \<Rightarrow> (Some ''OK'', st3\<lparr>xcom_extract := Some data\<rparr>)))))"

section \<open>The transform stage\<close>

definition NO_IMAGE :: ustr where
  "NO_IMAGE = lit ''https://upload.wikimedia.org/wikipedia/commons/thumb/0/0a/No-image-available.png/480px-No-image-available.png''"

definition get_lat_long :: "world \<Rightarrow> ustr \<Rightarrow> ustr \<Rightarrow> (real \<times> real) option" where
  \<comment> \<open>the query is \<open>f'{city}, {country}'\<close>\<close>
  "get_lat_long w country_name city_name =
     (case geocode w (city_name @ lit '', '' @ country_name) of
        Some loc \<Rightarrow> Some (latitude loc, longitude loc)
      | None \<Rightarrow> None)"

text \<open>
  \<open>get_lat_long\<close> above is the value the function returns; the call itself raises
  what the service raises.
\<close>

definition get_lat_long_call :: "world \<Rightarrow> ustr \<Rightarrow> ustr \<Rightarrow> exn + (real \<times> real) option" where
  "get_lat_long_call w country_name city_name =
     (case geocode_raises w (city_name @ lit '', '' @ country_name) of
        Some e \<Rightarrow> Inl e
      | None \<Rightarrow> Inr (get_lat_long w country_name city_name))"

text \<open>
  \<open>int(s)\<close> on a string, as \<open>astype(int)\<close> applies it to each element. The
  interpreter first rewrites the string: a character below 127 stays, any other
  whitespace character becomes a space, any other decimal digit becomes its ASCII digit,
  and anything else becomes \<open>'?'\<close>. The ASCII parser then skips the whitespace of C
  (tab to carriage return, and space; not U+001C to U+001F) on both sides and reads an
  optional sign and decimal digits with single underscores between them. More digits than
  the interpreter's limit are refused, and the result must fit 64 bits.
\<close>

definition is_digit :: "nat \<Rightarrow> bool" where
  "is_digit c \<longleftrightarrow> 48 \<le> c \<and> c \<le> 57"

definition is_c_space :: "nat \<Rightarrow> bool" where
  "is_c_space c \<longleftrightarrow> (9 \<le> c \<and> c \<le> 13) \<or> c = 32"

definition to_ascii :: "world \<Rightarrow> nat \<Rightarrow> nat" where
  "to_ascii w ch =
     (if ch < 127 then ch
      else if isspace ch then 32
      else (case (if 128 \<le> ch then decimal_digit w ch else None) of
              Some d \<Rightarrow> if d < 10 then 48 + d else 63
            | None \<Rightarrow> 63))"

fun digits_value :: "int \<Rightarrow> ustr \<Rightarrow> int option" where
  "digits_value acc [] = Some acc"
| "digits_value acc [c] = (if is_digit c then Some (10 * acc + (int c - 48)) else None)"
| "digits_value acc (c # d # ds) =
     (if is_digit c then digits_value (10 * acc + (int c - 48)) (d # ds)
      else if c = 95 \<and> is_digit d then digits_value (10 * acc + (int d - 48)) ds
      else None)"

definition py_int :: "world \<Rightarrow> ustr \<Rightarrow> exn + int" where
  "py_int w s =
     (let t = rev (dropWhile is_c_space (rev (dropWhile is_c_space (map (to_ascii w) s))));
          negative = (t \<noteq> [] \<and> hd t = 45);
          body = (if t \<noteq> [] \<and> (hd t = 43 \<or> hd t = 45) then tl t else t);
          digits = length (filter is_digit body)
      in if body = [] \<or> \<not> is_digit (hd body) then Inl ValueError
         else if 0 < int_max_str_digits w \<and> 640 < digits \<and> int_max_str_digits w < digits
         then Inl ValueError
         else (case digits_value 0 body of
                 None \<Rightarrow> Inl ValueError
               | Some v \<Rightarrow>
                   (let n = (if negative then - v else v) in
                    if - (2 ^ 63) \<le> n \<and> n < 2 ^ 63 then Inr n else Inl OverflowError)))"

text \<open>
  The passes of the stage, one definition per statement. \<open>attach_location\<close> is the
  frame line 177 builds when every call returns, \<open>locate\<close> the statement itself.
\<close>

definition attach_location :: "world \<Rightarrow> ustr stadium_rec list \<Rightarrow> ustr frame_row list" where
  "attach_location w data =
     map (\<lambda>x. \<lparr>rank = rank x, stadium = stadium x, capacity = capacity x, region = region x,
               country = country x, city = city x, images = images x,
               home_team = home_team x,
               location = get_lat_long w (country x) (stadium x)\<rparr>) data"

definition locate :: "world \<Rightarrow> ustr stadium_rec list \<Rightarrow> exn + ustr frame_row list" where
  "locate w data =
     collect (\<lambda>x.
       and_then (get_lat_long_call w (country x) (stadium x)) (\<lambda>found.
         Inr \<lparr>rank = rank x, stadium = stadium x, capacity = capacity x, region = region x,
              country = country x, city = city x, images = images x,
              home_team = home_team x, location = found\<rparr>)) data"

definition image_or_placeholder :: "ustr option \<Rightarrow> ustr option" where
  \<comment> \<open>\<open>x if x not in ['NO_IMAGE', '', None] else NO_IMAGE\<close>\<close>
  "image_or_placeholder x =
     (if x \<notin> set [Some (lit ''NO_IMAGE''), Some [], None] then x else Some NO_IMAGE)"

definition normalize_images :: "'c frame_row list \<Rightarrow> 'c frame_row list" where
  "normalize_images df = map (\<lambda>r. r\<lparr>images := image_or_placeholder (images r)\<rparr>) df"

definition capacity_as_int :: "world \<Rightarrow> ustr frame_row \<Rightarrow> exn + int frame_row" where
  "capacity_as_int w r =
     and_then (py_int w (capacity r)) (\<lambda>n.
       Inr \<lparr>rank = rank r, stadium = stadium r, capacity = n, region = region r,
            country = country r, city = city r, images = images r,
            home_team = home_team r, location = location r\<rparr>)"

definition astype_int :: "world \<Rightarrow> ustr frame_row list \<Rightarrow> exn + int frame_row list" where
  "astype_int w df = collect (capacity_as_int w) df"

definition typed_frame :: "world \<Rightarrow> ustr stadium_rec list \<Rightarrow> exn + int frame_row list" where
  \<comment> \<open>\<open>stadiums_df\<close> after line 179\<close>
  "typed_frame w data = and_then (locate w data) (\<lambda>df. astype_int w (normalize_images df))"

text \<open>
  \<open>duplicated\<close> with \<open>keep='first'\<close>: true for a value seen earlier in the column
  (two \<open>None\<close> count as equal). The boolean selection keeps each row's index label.
\<close>

fun duplicated_from :: "'a list \<Rightarrow> 'a list \<Rightarrow> bool list" where
  "duplicated_from seen [] = []"
| "duplicated_from seen (x # xs) = (x \<in> set seen) # duplicated_from (x # seen) xs"

definition duplicated :: "'a list \<Rightarrow> bool list" where
  "duplicated xs = duplicated_from [] xs"

definition select_mask :: "'a list \<Rightarrow> bool list \<Rightarrow> (nat \<times> 'a) list" where
  "select_mask df flags = map snd (filter fst (zip flags (enumerate 0 df)))"

definition regeocode :: "world \<Rightarrow> (nat \<times> 'c frame_row) list \<Rightarrow> (nat \<times> 'c frame_row) list" where
  "regeocode w duplicates =
     map (\<lambda>(i, x). (i, x\<lparr>location := get_lat_long w (country x) (city x)\<rparr>)) duplicates"

text \<open>
  \<open>DataFrame.update\<close>: aligned on the index, every column takes the other frame's
  value where that value is present and not missing, and keeps its own otherwise.
  Only \<open>images\<close> and \<open>location\<close> can hold a missing value; the integers of a
  selected row are taken to come back as they were, as any integer that a double holds
  exactly does.
\<close>

definition update_row :: "'c frame_row \<Rightarrow> 'c frame_row \<Rightarrow> 'c frame_row" where
  "update_row this that =
     \<lparr>rank = rank that, stadium = stadium that, capacity = capacity that,
      region = region that, country = country that, city = city that,
      images = (case images that of None \<Rightarrow> images this | Some v \<Rightarrow> Some v),
      home_team = home_team that,
      location = (case location that of None \<Rightarrow> location this | Some c \<Rightarrow> Some c)\<rparr>"

definition update :: "'c frame_row list \<Rightarrow> (nat \<times> 'c frame_row) list \<Rightarrow> 'c frame_row list" where
  "update df other =
     map (\<lambda>(i, this). case map_of other i of None \<Rightarrow> this | Some that \<Rightarrow> update_row this that)
       (enumerate 0 df)"

definition resolve_duplicates :: "world \<Rightarrow> 'c frame_row list \<Rightarrow> 'c frame_row list" where
  "resolve_duplicates w df =
     (let duplicates = select_mask df (duplicated (map location df))
      in update df (regeocode w duplicates))"

text \<open>
  Lines 181 to 183 as run. The re-geocoding calls are made for the selected rows, and
  one that raises ends the stage; when they all return, the pass is
  \<open>resolve_duplicates\<close>. On an empty selection \<open>apply\<close> calls the function once on
  a row of missing values to learn its result type, which makes the query
  \<open>'nan, nan'\<close>: its answer is discarded, and if it raises the column assignment
  fails with ValueError.
\<close>

definition resolve_duplicates_call :: "world \<Rightarrow> 'c frame_row list \<Rightarrow> exn + 'c frame_row list" where
  "resolve_duplicates_call w df =
     (let duplicates = select_mask df (duplicated (map location df)) in
      if duplicates = [] then
        (case geocode_raises w (lit ''nan, nan'') of
           Some e \<Rightarrow> Inl ValueError
         | None \<Rightarrow> Inr (resolve_duplicates w df))
      else
        and_then (collect (\<lambda>(i, x). get_lat_long_call w (country x) (city x)) duplicates)
          (\<lambda>found. Inr (resolve_duplicates w df)))"

text \<open>
  \<open>to_json\<close>: what is pushed is the frame as its JSON text encodes it, with every
  float as the encoder writes it; strings and integers are encoded exactly.
\<close>

definition to_json :: "world \<Rightarrow> int frame_row list \<Rightarrow> exn + int frame_row list" where
  "to_json w df =
     (case to_json_raises w df of
        Some e \<Rightarrow> Inl e
      | None \<Rightarrow>
          Inr (map (\<lambda>r. r\<lparr>location :=
                   map_option (\<lambda>(lat, lon). (json_float w lat, json_float w lon))
                     (location r)\<rparr>) df))"

text \<open>
  The stage has no handler: an exception ends the task and nothing is pushed.
  \<open>xcom_pull\<close> gives \<open>None\<close> when the extract task pushed nothing, which \<open>json.loads\<close>
  rejects; an empty record list makes a frame without columns, on which the first column
  assignment fails.
\<close>

definition transform_wikipedia_data :: "world \<Rightarrow> task_state \<Rightarrow> exn + (string \<times> task_state)" where
  "transform_wikipedia_data w st =
     (case xcom_extract st of
        None \<Rightarrow> Inl TypeError
      | Some data \<Rightarrow>
          if data = [] then Inl ValueError
          else and_then (typed_frame w data) (\<lambda>stadiums_df.
               and_then (resolve_duplicates_call w stadiums_df) (\<lambda>revised.
               and_then (to_json w revised) (\<lambda>pushed.
                 Inr (''OK'', st\<lparr>xcom_transform := Some pushed\<rparr>)))))"

section \<open>Sample pages and collaborators\<close>

text \<open>
  Concrete inputs on which the theorems below are run: a row whose cells are all
  \<open>th\<close> (no \<open>td\<close>), two well-formed data rows, a row with too few cells, an image
  whose address has two double slashes, and collaborators that serve them.
\<close>

definition plain :: "string \<Rightarrow> td" where
  "plain s = Td (lit s) None"

definition header_row :: tr where
  "header_row = []"

definition wembley_row :: tr where
  "wembley_row =
     [plain ''Wembley Stadium[1]'', plain ''90,000'', plain ''Europe'', plain ''England'',
      plain ''London'', Td [] (Some (Img (Some (lit ''//upload.wikimedia.org/wembley.jpg'')))),
      plain ''England national team'']"

definition azteca_row :: tr where
  "azteca_row =
     [plain ''Estadio Azteca'', plain ''87.523'', plain ''North America'', plain ''Mexico'',
      plain ''Mexico City'', plain '''', plain ''Mexico national team'']"

definition short_row :: tr where
  "short_row = [plain ''Camp Nou'', plain ''99,354'']"

definition two_slash_row :: tr where
  "two_slash_row =
     [plain ''A'', plain ''1'', plain ''B'', plain ''C'', plain ''D'',
      Td [] (Some (Img (Some (lit ''//host/a//b.png'')))), plain ''E'']"

definition serve :: "tr list \<Rightarrow> (ustr \<Rightarrow> geo_location option) \<Rightarrow> world" where
  \<comment> \<open>the page has one matching table, with these rows; no call raises; the interpreter
     knows the Arabic-Indic digits and has the default digit limit; every float served
     has fewer than ten decimals\<close>
  "serve rows geo =
     \<lparr>http_get = (\<lambda>url. Inr (lit ''<html>'')),
      select_tables = (\<lambda>html. [rows]),
      geocode = geo,
      geocode_raises = (\<lambda>query. None),
      decimal_digit = (\<lambda>ch. if 1632 \<le> ch \<and> ch \<le> 1641 then Some (ch - 1632) else None),
      int_max_str_digits = 4300,
      to_json_raises = (\<lambda>df. None),
      json_float = (\<lambda>x. x)\<rparr>"

definition nowhere :: "ustr \<Rightarrow> geo_location option" where
  "nowhere query = None"

definition atlas :: "ustr \<Rightarrow> geo_location option" where
  \<comment> \<open>three stadium queries collide on one point; two city queries resolve\<close>
  "atlas query =
     (if query \<in> set [lit ''Wembley Stadium, England'', lit ''Twickenham Stadium, England'',
                       lit ''Old Trafford, England'']
      then Some \<lparr>latitude = 51, longitude = 0\<rparr>
      else if query = lit ''London, England'' then Some \<lparr>latitude = 52, longitude = 1\<rparr>
      else if query = lit ''Guadalajara, Mexico'' then Some \<lparr>latitude = 20, longitude = - 103\<rparr>
      else None)"

definition entry :: "int \<Rightarrow> string \<Rightarrow> string \<Rightarrow> string \<Rightarrow> string \<Rightarrow> ustr option \<Rightarrow> ustr stadium_rec" where
  "entry i name cap ctry cty picture =
     \<lparr>rank = i, stadium = lit name, capacity = lit cap, region = lit ''-'',
      country = lit ctry, city = lit cty, images = picture, home_team = lit ''-''\<rparr>"

definition five_records :: "ustr stadium_rec list" where
  "five_records =
     [entry 1 ''Wembley Stadium'' ''90000'' ''England'' ''London''
        (Some (lit ''https://upload.wikimedia.org/wembley.jpg'')),
      entry 2 ''Estadio Azteca'' ''87523'' ''Mexico'' ''Mexico City'' (Some (lit ''NO_IMAGE'')),
      entry 3 ''Twickenham Stadium'' ''82000'' ''England'' ''London'' None,
      entry 4 ''Estadio Jalisco'' ''55020'' ''Mexico'' ''Guadalajara'' (Some []),
      entry 5 ''Old Trafford'' ''74310'' ''England'' ''Manchester'' (Some (lit ''NO_IMAGE''))]"

definition five_pushed :: task_state where
  "five_pushed = \<lparr>xcom_extract = Some five_records, xcom_transform = None, logged = []\<rparr>"

definition start :: task_state where
  "start = \<lparr>xcom_extract = None, xcom_transform = None, logged = []\<rparr>"

definition five_frame :: "int frame_row list" where
  \<comment> \<open>the frame the stage hands to its duplicate pass for \<open>five_records\<close>\<close>
  "five_frame =
     (case astype_int (serve [] atlas)
             (normalize_images (attach_location (serve [] atlas) five_records)) of
        Inr df \<Rightarrow> df
      | Inl e \<Rightarrow> [])"

section \<open>Facts about the string operations\<close>


lemma find_idx_SomeD:
  "find_idx s sub = Some i \<Longrightarrow> i \<le> length s \<and> prefix sub (drop i s)"
proof (induction s arbitrary: i)
  case Nil
  then show ?case by (simp split: if_splits)
next
  case (Cons c cs)
  then show ?case by (auto split: if_splits)
qed

lemma find_idx_first:
  "find_idx s sub = Some i \<Longrightarrow> j < i \<Longrightarrow> \<not> prefix sub (drop j s)"
proof (induction s arbitrary: i j)
  case Nil
  then show ?case by (simp split: if_splits)
next
  case (Cons c cs)
  then show ?case by (cases j) (auto split: if_splits)
qed

lemma find_idx_None_iff: "find_idx s sub = None \<longleftrightarrow> \<not> sublist sub s"
proof (induction s)
  case Nil
  then show ?case by simp
next
  case (Cons c cs)
  then show ?case by (auto simp: sublist_Cons_right)
qed

lemma py_split_not_Nil: "py_split s sep \<noteq> []"
  by (induction s sep rule: py_split.induct) (auto split: list.splits)

lemma py_split_None: "find_idx s sep = None \<Longrightarrow> py_split s sep = [s]"
proof (induction s)
  case Nil
  then show ?case by simp
next
  case (Cons c cs)
  then show ?case by (auto split: if_splits)
qed

lemma py_split_Some:
  "sep \<noteq> [] \<Longrightarrow> find_idx s sep = Some k \<Longrightarrow>
   py_split s sep = take k s # py_split (drop (k + length sep) s) sep"
proof (induction s arbitrary: k)
  case Nil
  then show ?case by simp
next
  case (Cons c cs)
  show ?case
  proof (cases "prefix sep (c # cs)")
    case True
    with Cons.prems show ?thesis by simp
  next
    case False
    with Cons.prems obtain k' where k': "find_idx cs sep = Some k'" "k = Suc k'"
      by auto
    with Cons.IH [OF Cons.prems(1) k'(1)] False show ?thesis by simp
  qed
qed

lemma py_split_0: "sep \<noteq> [] \<Longrightarrow> py_split s sep ! 0 = truncate_at s sep"
  by (cases "find_idx s sep") (simp_all add: truncate_at_def py_split_None py_split_Some)

lemma py_replace_None: "find_idx s old = None \<Longrightarrow> py_replace s old new = s"
proof (induction s)
  case Nil
  then show ?case by simp
next
  case (Cons c cs)
  then show ?case by (auto split: if_splits)
qed

lemma py_replace_single: "py_replace s [c] [] = filter (\<lambda>x. x \<noteq> c) s"
  by (induction s) auto

lemma length_py_replace: "length (py_replace s old []) \<le> length s"
  by (induction s old "[]::'a list" rule: py_replace.induct) auto

lemma py_replace_same_length:
  "old \<noteq> [] \<Longrightarrow> length (py_replace s old []) = length s \<Longrightarrow> find_idx s old = None"
proof (induction s old "[]::'a list" rule: py_replace.induct)
  case (1 old)
  then show ?case by simp
next
  case (2 c cs old)
  show ?case
  proof (cases "prefix old (c # cs)")
    case True
    have "length (py_replace (drop (length old) (c # cs)) old []) \<le> length (drop (length old) (c # cs))"
      by (rule length_py_replace)
    with True 2 show ?thesis by (auto simp: neq_Nil_conv)
  next
    case False
    with 2 show ?thesis by auto
  qed
qed

lemma length_py_strip: "length (py_strip s) \<le> length s"
proof -
  have "length (dropWhile isspace (rev (dropWhile isspace s))) \<le> length (rev (dropWhile isspace s))"
    by (rule length_dropWhile_le)
  also have "\<dots> \<le> length s" by (simp add: length_dropWhile_le)
  finally show ?thesis by (simp add: py_strip_def)
qed


lemma find_idx_bound: "find_idx s sub = Some i \<Longrightarrow> i + length sub \<le> length s"
proof -
  assume a: "find_idx s sub = Some i"
  then have "i \<le> length s" and "prefix sub (drop i s)"
    using find_idx_SomeD by blast+
  then have "length sub \<le> length s - i"
    using prefix_length_le by fastforce
  with \<open>i \<le> length s\<close> show ?thesis by simp
qed

lemma length_truncate_at: "length (truncate_at s m) \<le> length s"
  by (simp add: truncate_at_def split: option.splits)

lemma truncate_at_same_length:
  "m \<noteq> [] \<Longrightarrow> length (truncate_at s m) = length s \<Longrightarrow> find_idx s m = None"
proof (cases "find_idx s m")
  case None
  then show ?thesis by simp
next
  case (Some i)
  assume "m \<noteq> []" and len: "length (truncate_at s m) = length s"
  from Some have "i + length m \<le> length s" by (rule find_idx_bound)
  with \<open>m \<noteq> []\<close> have "i < length s" by (cases m) simp_all
  with Some len show ?thesis by (simp add: truncate_at_def)
qed

lemma truncate_at_None: "find_idx s m = None \<Longrightarrow> truncate_at s m = s"
  by (simp add: truncate_at_def)

lemma dropWhile_same_length: "length (dropWhile P xs) = length xs \<Longrightarrow> dropWhile P xs = xs"
proof -
  assume a: "length (dropWhile P xs) = length xs"
  have "length (takeWhile P xs) + length (dropWhile P xs) = length xs"
    by (metis length_append takeWhile_dropWhile_id)
  with a have "takeWhile P xs = []" by simp
  then show ?thesis by (metis append_Nil takeWhile_dropWhile_id)
qed

lemma py_strip_same_length: "length (py_strip s) = length s \<Longrightarrow> py_strip s = s"
proof -
  assume a: "length (py_strip s) = length s"
  let ?d = "dropWhile isspace s"
  have l1: "length (dropWhile isspace (rev ?d)) \<le> length (rev ?d)"
    by (rule length_dropWhile_le)
  have l2: "length ?d \<le> length s" by (rule length_dropWhile_le)
  from a have "length (dropWhile isspace (rev ?d)) = length s" by (simp add: py_strip_def)
  with l1 l2 have e1: "length ?d = length s" and e2: "length (dropWhile isspace (rev ?d)) = length (rev ?d)"
    by simp_all
  from e1 have "?d = s" by (rule dropWhile_same_length)
  moreover from e2 have "dropWhile isspace (rev ?d) = rev ?d" by (rule dropWhile_same_length)
  ultimately show ?thesis by (simp add: py_strip_def)
qed

lemma py_strip_not_space: "py_strip s = s \<Longrightarrow> s = c # cs \<Longrightarrow> \<not> isspace c"
proof
  assume a: "py_strip s = s" and s: "s = c # cs" and sp: "isspace c"
  have "length (py_strip s) \<le> length (dropWhile isspace s)"
    using length_dropWhile_le [of isspace "rev (dropWhile isspace s)"] by (simp add: py_strip_def)
  also have "\<dots> \<le> length cs" using s sp by (simp add: length_dropWhile_le)
  finally show False using a s by simp
qed

lemma single_find_idx_None: "find_idx s [c] = None \<longleftrightarrow> c \<notin> set s"
  by (induction s) auto


lemma lit_simps:
  "lit ''&nbsp'' \<noteq> []" "lit ''['' \<noteq> []" "lit '' (formerly)'' \<noteq> []" "diamond \<noteq> []" "newline \<noteq> []"
  by (simp_all add: lit_def diamond_def newline_def)

lemma guarded_split:
  "sep \<noteq> [] \<Longrightarrow> (if py_find s sep \<noteq> - 1 then py_split s sep ! 0 else s) = truncate_at s sep"
  by (cases "find_idx s sep") (simp_all add: py_find_def py_split_0 truncate_at_def py_split_None)

lemma clean_text_alt:
  "clean_text t =
     remove_all
       (truncate_at
          (truncate_at (diamond_step (remove_all (py_strip t) (lit ''&nbsp''))) (lit ''[''))
          (lit '' (formerly)''))
       newline"
proof -
  have d: "(if py_find s diamond \<noteq> 0 then py_split s diamond ! 0 else s) = diamond_step s" for s
    by (cases "find_idx s diamond")
       (auto simp: py_find_def diamond_step_def py_split_0 lit_simps)
  show ?thesis
    unfolding clean_text_def Let_def d guarded_split [OF lit_simps(2)] guarded_split [OF lit_simps(3)]
    by (simp add: remove_all_def)
qed


lemma diamond_step_length: "length (diamond_step s) \<le> length s"
  by (simp add: diamond_step_def length_truncate_at)

lemma is_clean_fixed: "is_clean y \<Longrightarrow> clean_text y = y"
proof -
  assume c: "is_clean y"
  then have nl: "find_idx y newline = None"
    by (simp add: is_clean_def newline_def single_find_idx_None)
  from c show ?thesis
    unfolding clean_text_alt
    by (simp add: is_clean_def remove_all_def py_replace_None diamond_step_def truncate_at_None nl)
qed

lemma fixed_is_clean:
  assumes fx: "clean_text y = y"
  shows "is_clean y"
proof -
  let ?t1 = "py_strip y"
  let ?t2 = "remove_all ?t1 (lit ''&nbsp'')"
  let ?t3 = "diamond_step ?t2"
  let ?t4 = "truncate_at ?t3 (lit ''['')"
  let ?t5 = "truncate_at ?t4 (lit '' (formerly)'')"
  let ?t6 = "remove_all ?t5 newline"
  have e: "?t6 = y" using fx by (simp add: clean_text_alt)
  have l1: "length ?t1 \<le> length y" by (rule length_py_strip)
  have l2: "length ?t2 \<le> length ?t1" by (simp add: remove_all_def length_py_replace)
  have l3: "length ?t3 \<le> length ?t2" by (rule diamond_step_length)
  have l4: "length ?t4 \<le> length ?t3" by (rule length_truncate_at)
  have l5: "length ?t5 \<le> length ?t4" by (rule length_truncate_at)
  have l6: "length ?t6 \<le> length ?t5" by (simp add: remove_all_def length_py_replace)
  have l: "length ?t6 = length y" using e by simp
  from l l1 l2 l3 l4 l5 l6 have q1: "length ?t1 = length y" by linarith
  then have s1: "?t1 = y" by (rule py_strip_same_length)
  from l l1 l2 l3 l4 l5 l6 have "length ?t2 = length ?t1" by linarith
  then have n2: "find_idx ?t1 (lit ''&nbsp'') = None"
    unfolding remove_all_def by (rule py_replace_same_length [OF lit_simps(1)])
  then have s2: "?t2 = y" using s1 by (simp add: remove_all_def py_replace_None)
  from l l1 l2 l3 l4 l5 l6 have q3: "length ?t3 = length ?t2" by linarith
  have n3: "find_idx y diamond = None"
  proof (cases "find_idx y diamond = Some 0")
    case True
    then have "prefix diamond (drop 0 y)" using find_idx_SomeD by blast
    then obtain cs where "y = 32 # cs" by (auto simp: diamond_def prefix_def)
    with s1 have "\<not> isspace 32" using py_strip_not_space by blast
    then show ?thesis by (simp add: isspace_def)
  next
    case False
    with q3 s2 have "length (truncate_at y diamond) = length y" by (simp add: diamond_step_def)
    then show ?thesis by (rule truncate_at_same_length [OF lit_simps(4)])
  qed
  then have s3: "?t3 = y" using s2 by (simp add: diamond_step_def truncate_at_None)
  from l l1 l2 l3 l4 l5 l6 have "length ?t4 = length ?t3" by linarith
  then have "find_idx ?t3 (lit ''['') = None" by (rule truncate_at_same_length [OF lit_simps(2)])
  then have n4: "find_idx y (lit ''['') = None" using s3 by simp
  then have s4: "?t4 = y" using s3 by (simp add: truncate_at_None)
  from l l1 l2 l3 l4 l5 l6 have "length ?t5 = length ?t4" by linarith
  then have "find_idx ?t4 (lit '' (formerly)'') = None"
    by (rule truncate_at_same_length [OF lit_simps(3)])
  then have n5: "find_idx y (lit '' (formerly)'') = None" using s4 by simp
  then have s5: "?t5 = y" using s4 by (simp add: truncate_at_None)
  from l l1 l2 l3 l4 l5 l6 have "length ?t6 = length ?t5" by linarith
  then have "find_idx ?t5 newline = None"
    unfolding remove_all_def by (rule py_replace_same_length [OF lit_simps(5)])
  then have n6: "10 \<notin> set y" using s5 by (simp add: newline_def single_find_idx_None)
  from s1 n2 n3 n4 n5 n6 show ?thesis by (simp add: is_clean_def)
qed

lemmas cleaner_defs = clean_text_def clean_text_spec_def truncate_at_def remove_all_def lit_def
  py_strip_def isspace_def py_find_def diamond_def newline_def


section \<open>Facts about the extract stage\<close>


lemma collect_Inr_iff:
  "collect f xs = Inr ys \<longleftrightarrow> list_all2 (\<lambda>x y. f x = Inr y) xs ys"
proof (induction xs arbitrary: ys)
  case Nil
  then show ?case by auto
next
  case (Cons x xs)
  show ?case by (cases ys) (auto simp: Cons.IH [symmetric] split: sum.splits)
qed

lemma collect_Inl:
  "x \<in> set xs \<Longrightarrow> f x = Inl e \<Longrightarrow> \<exists>e'. collect f xs = Inl e'"
proof (induction xs)
  case Nil
  then show ?case by simp
next
  case (Cons a xs)
  then show ?case by (auto split: sum.splits)
qed

lemma collect_total:
  "(\<And>x. x \<in> set xs \<Longrightarrow> \<exists>y. f x = Inr y) \<Longrightarrow> \<exists>ys. collect f xs = Inr ys"
proof (induction xs)
  case Nil
  then show ?case by simp
next
  case (Cons a xs)
  then obtain y where "f a = Inr y" by auto
  moreover from Cons obtain ys where "collect f xs = Inr ys" by auto
  ultimately show ?case by simp
qed

lemma py_split_length: "sep \<noteq> [] \<Longrightarrow> 1 < length (py_split s sep) \<longleftrightarrow> find_idx s sep \<noteq> None"
proof (cases "find_idx s sep")
  case None
  then show ?thesis by (simp add: py_split_None)
next
  case (Some k)
  assume "sep \<noteq> []"
  with Some have "py_split s sep = take k s # py_split (drop (k + length sep) s) sep"
    by (simp add: py_split_Some)
  moreover have "py_split (drop (k + length sep) s) sep \<noteq> []" by (rule py_split_not_Nil)
  ultimately show ?thesis using Some by (simp add: Suc_lessI)
qed

lemma py_split_1:
  "sep \<noteq> [] \<Longrightarrow> find_idx s sep = Some k \<Longrightarrow>
   py_split s sep ! 1 = truncate_at (drop (k + length sep) s) sep"
  by (simp add: py_split_Some py_split_0)

lemma image_url_cases:
  "image_url cell = Inr u \<longleftrightarrow>
     (td_img cell = None \<and> u = lit ''NO_IMAGE'') \<or>
     (\<exists>s k. td_img cell = Some (Img (Some s)) \<and> find_idx s (lit ''//'') = Some k \<and>
        u = lit ''https://'' @ truncate_at (drop (k + 2) s) (lit ''//''))"
proof -
  have ne: "lit ''//'' \<noteq> []" and len: "length (lit ''//'') = 2" by (simp_all add: lit_def)
  show ?thesis
  proof (cases "td_img cell")
    case None
    then show ?thesis by (auto simp: image_url_def)
  next
    case (Some im)
    show ?thesis
    proof (cases "src im")
      case None
      with Some show ?thesis by (cases im) (auto simp: image_url_def)
    next
      case (Some s)
      note s = this
      show ?thesis
      proof (cases "find_idx s (lit ''//'')")
        case None
        with s \<open>td_img cell = Some im\<close> py_split_length [OF ne, of s] show ?thesis
          by (cases im) (auto simp: image_url_def Let_def)
      next
        case (Some k)
        with s \<open>td_img cell = Some im\<close> py_split_length [OF ne, of s] py_split_1 [OF ne Some] len
        show ?thesis
          by (cases im) (auto simp: image_url_def Let_def)
      qed
    qed
  qed
qed

lemma map_row_Inr_iff:
  "map_row i tds = Inr r \<longleftrightarrow>
     7 \<le> length tds \<and>
     (\<exists>u. image_url (tds ! 5) = Inr u \<and>
       r = \<lparr>rank = i,
            stadium = clean_text (td_text (tds ! 0)),
            capacity = py_replace (py_replace (clean_text (td_text (tds ! 1))) (lit '','') [])
                         (lit ''.'') [],
            region = clean_text (td_text (tds ! 2)),
            country = clean_text (td_text (tds ! 3)),
            city = clean_text (td_text (tds ! 4)),
            images = Some u,
            home_team = clean_text (td_text (tds ! 6))\<rparr>)"
  by (cases "image_url (tds ! 5)") (auto simp: map_row_def and_then_def item_def)

lemma map_row_short: "length tds < 7 \<Longrightarrow> \<exists>e. map_row i tds = Inl e"
  by (cases "map_row i tds") (auto simp: map_row_Inr_iff)


section \<open>The extract stage on a table\<close>


lemma mappable_iff: "mappable tds \<longleftrightarrow> (\<exists>r. map_row i tds = Inr r)"
proof -
  have "(\<exists>u. image_url cell = Inr u) \<longleftrightarrow>
        (case td_img cell of None \<Rightarrow> True
         | Some im \<Rightarrow> (case src im of None \<Rightarrow> False | Some s \<Rightarrow> find_idx s (lit ''//'') \<noteq> None))"
    for cell
  proof (cases "td_img cell")
    case None
    then show ?thesis by (simp add: image_url_cases)
  next
    case (Some im)
    then show ?thesis by (cases im; cases "src im") (auto simp: image_url_cases)
  qed
  then show ?thesis by (auto simp: mappable_def map_row_Inr_iff)
qed

lemma map_rows_Inr_iff:
  "map_rows rows = Inr data \<longleftrightarrow>
     length data = length rows - 1 \<and>
     (\<forall>k<length data. map_row (int k + 1) (rows ! (k + 1)) = Inr (data ! k))"
  by (auto simp: map_rows_def collect_Inr_iff list_all2_conv_all_nth add.commute)

lemma map_rows_total:
  assumes "\<forall>i\<in>{1..<length rows}. mappable (rows ! i)"
  shows "\<exists>data. map_rows rows = Inr data"
  unfolding map_rows_def
proof (rule collect_total)
  fix i assume "i \<in> set [1..<length rows]"
  with assms have "mappable (rows ! i)" by simp
  then show "\<exists>y. map_row (int i) (rows ! i) = Inr y" by (simp add: mappable_iff [of _ "int i"])
qed

lemma map_rows_short:
  assumes "i \<in> {1..<length rows}" and "length (rows ! i) < 7"
  shows "\<exists>e. map_rows rows = Inl e"
proof -
  from assms(2) obtain e where e: "map_row (int i) (rows ! i) = Inl e"
    using map_row_short by blast
  from assms(1) have "i \<in> set [1..<length rows]" by simp
  then show ?thesis
    unfolding map_rows_def
    using collect_Inl [of i "[1..<length rows]" "\<lambda>i. map_row (int i) (rows ! i)" e] e
    by simp
qed

lemma extract_on_table:
  assumes "http_get w url = Inr html" and "select_tables w html = rows # others"
  shows "extract_wikipedia_data w url st =
     (let st3 = say (LogInfo ''Rows retrieved'')
                  (say (LogInfo ''Data retrieved from page...'')
                     (say (Stdout ''Getting wikipedia page...'' url) st))
      in case map_rows rows of
           Inl e \<Rightarrow> could_not_get_rows e st3
         | Inr data \<Rightarrow> (Some ''OK'', st3\<lparr>xcom_extract := Some data\<rparr>))"
  using assms
  by (simp add: extract_wikipedia_data_def get_wikipedia_page_def get_wikipedia_data_def Let_def)

lemmas sample_defs = serve_def nowhere_def start_def header_row_def wembley_row_def
  azteca_row_def short_row_def two_slash_row_def plain_def

lemmas row_defs = map_row_def and_then_def item_def image_url_def


lemma wembley_record:
  "map_row 1 wembley_row =
     Inr \<lparr>rank = 1, stadium = lit ''Wembley Stadium'', capacity = lit ''90000'',
          region = lit ''Europe'', country = lit ''England'', city = lit ''London'',
          images = Some (lit ''https://upload.wikimedia.org/wembley.jpg''),
          home_team = lit ''England national team''\<rparr>"
  by (simp add: sample_defs row_defs cleaner_defs)

lemma azteca_record:
  "map_row 2 azteca_row =
     Inr \<lparr>rank = 2, stadium = lit ''Estadio Azteca'', capacity = lit ''87523'',
          region = lit ''North America'', country = lit ''Mexico'', city = lit ''Mexico City'',
          images = Some (lit ''NO_IMAGE''),
          home_team = lit ''Mexico national team''\<rparr>"
  by (simp add: sample_defs row_defs cleaner_defs)

lemma sample_mappable: "mappable wembley_row" "mappable azteca_row"
  by (simp_all add: mappable_def sample_defs lit_def)

lemma serve_simps:
  "http_get (serve rows geo) url = Inr (lit ''<html>'')"
  "select_tables (serve rows geo) html = rows # []"
  "geocode (serve rows geo) = geo"
  by (simp_all add: serve_def)

section \<open>Facts about the duplicate pass\<close>


lemma length_duplicated_from: "length (duplicated_from seen xs) = length xs"
  by (induction xs arbitrary: seen) simp_all

lemma duplicated_from_nth:
  "i < length xs \<Longrightarrow>
   duplicated_from seen xs ! i \<longleftrightarrow> xs ! i \<in> set seen \<or> (\<exists>j<i. xs ! j = xs ! i)"
proof (induction xs arbitrary: seen i)
  case Nil
  then show ?case by simp
next
  case (Cons x xs)
  show ?case
  proof (cases i)
    case 0
    then show ?thesis by simp
  next
    case (Suc i')
    with Cons.prems have "i' < length xs" by simp
    from Cons.IH [OF this, of "x # seen"] Suc show ?thesis
      by (auto simp: less_Suc_eq_0_disj)
  qed
qed

lemma length_duplicated: "length (duplicated xs) = length xs"
  by (simp add: duplicated_def length_duplicated_from)

lemma duplicated_nth:
  "i < length xs \<Longrightarrow> duplicated xs ! i \<longleftrightarrow> (\<exists>j<i. xs ! j = xs ! i)"
  by (simp add: duplicated_def duplicated_from_nth)

lemma map_of_selected:
  "length flags = length df \<Longrightarrow>
   map_of (map snd (filter fst (zip flags (enumerate n df)))) i =
     (if n \<le> i \<and> i < n + length df \<and> flags ! (i - n) then Some (df ! (i - n)) else None)"
proof (induction df arbitrary: n flags)
  case Nil
  then show ?case by simp
next
  case (Cons d ds)
  then obtain f fs where flags: "flags = f # fs" and len: "length fs = length ds"
    by (cases flags) auto
  have sub: "n < i \<Longrightarrow> i - n = Suc (i - Suc n)" by simp
  show ?case
    using Cons.IH [OF len, of "Suc n"] flags
    by (auto simp: sub nth_Cons')
qed

lemma map_of_select_mask:
  "length flags = length df \<Longrightarrow>
   map_of (select_mask df flags) i = (if i < length df \<and> flags ! i then Some (df ! i) else None)"
  using map_of_selected [of flags df 0 i] by (simp add: select_mask_def)

lemma map_of_regeocode:
  "map_of (regeocode w duplicates) i =
     map_option (\<lambda>x. x\<lparr>location := get_lat_long w (country x) (city x)\<rparr>) (map_of duplicates i)"
  by (simp add: regeocode_def map_of_map)

lemma length_update: "length (update df other) = length df"
  by (simp add: update_def)

lemma update_nth:
  "i < length df \<Longrightarrow>
   update df other ! i =
     (case map_of other i of None \<Rightarrow> df ! i | Some that \<Rightarrow> update_row (df ! i) that)"
  by (simp add: update_def nth_enumerate_eq)

lemma update_row_location:
  "update_row x (x\<lparr>location := new\<rparr>) =
     x\<lparr>location := (case new of None \<Rightarrow> location x | Some c \<Rightarrow> Some c)\<rparr>"
  by (cases "images x") (simp_all add: update_row_def)

lemma length_resolve_duplicates: "length (resolve_duplicates w df) = length df"
  by (simp add: resolve_duplicates_def length_update)

lemma resolve_duplicates_nth:
  assumes "i < length df"
  shows "resolve_duplicates w df ! i =
     (if \<exists>j<i. location (df ! j) = location (df ! i)
      then (df ! i)\<lparr>location :=
             (case get_lat_long w (country (df ! i)) (city (df ! i)) of
                None \<Rightarrow> location (df ! i) | Some c \<Rightarrow> Some c)\<rparr>
      else df ! i)"
proof -
  let ?flags = "duplicated (map location df)"
  have len: "length ?flags = length df" by (simp add: length_duplicated)
  have "(\<exists>j<i. map location df ! j = map location df ! i) \<longleftrightarrow>
        (\<exists>j<i. location (df ! j) = location (df ! i))"
    using assms by (metis less_trans nth_map)
  with assms have dup: "?flags ! i \<longleftrightarrow> (\<exists>j<i. location (df ! j) = location (df ! i))"
    by (simp add: duplicated_nth)
  show ?thesis
  proof (cases "\<exists>j<i. location (df ! j) = location (df ! i)")
    case True
    with dup have "?flags ! i" by simp
    with assms show ?thesis
      unfolding if_P [OF True]
      by (simp add: resolve_duplicates_def update_nth map_of_regeocode
          map_of_select_mask [OF len] update_row_location)
  next
    case False
    with dup have "\<not> ?flags ! i" by simp
    with assms show ?thesis
      unfolding if_not_P [OF False]
      by (simp add: resolve_duplicates_def update_nth map_of_regeocode
          map_of_select_mask [OF len])
  qed
qed


section \<open>The transform stage as a whole\<close>


lemmas int_defs = py_int_def is_digit_def is_c_space_def to_ascii_def

lemmas transform_defs = attach_location_def normalize_images_def
  image_or_placeholder_def astype_int_def capacity_as_int_def and_then_def int_defs
  get_lat_long_def

lemmas five_defs = five_records_def entry_def five_pushed_def atlas_def serve_def

lemma five_frame_eq:
  "map location five_frame = [Some (51, 0), None, Some (51, 0), None, Some (51, 0)]"
  "map capacity five_frame = [90000, 87523, 82000, 55020, 74310]"
  "map city five_frame = [lit ''London'', lit ''Mexico City'', lit ''London'', lit ''Guadalajara'', lit ''Manchester'']"
  "map country five_frame = [lit ''England'', lit ''Mexico'', lit ''England'', lit ''Mexico'', lit ''England'']"
  by (simp_all add: five_frame_def transform_defs five_defs lit_def)

lemma capacity_as_int_Inr:
  "capacity_as_int w x = Inr y \<longleftrightarrow>
     (\<exists>n. py_int w (capacity x) = Inr n \<and>
        y = \<lparr>rank = rank x, stadium = stadium x, capacity = n, region = region x,
             country = country x, city = city x, images = images x,
             home_team = home_team x, location = location x\<rparr>)"
  by (cases "py_int w (capacity x)") (auto simp: capacity_as_int_def and_then_def)

lemma astype_int_Inr:
  "astype_int w df = Inr df' \<longleftrightarrow>
     length df' = length df \<and> (\<forall>i<length df. capacity_as_int w (df ! i) = Inr (df' ! i))"
  by (auto simp: astype_int_def collect_Inr_iff list_all2_conv_all_nth)

lemma astype_int_total:
  assumes "\<forall>x\<in>set df. \<exists>n. py_int w (capacity x) = Inr n"
  shows "\<exists>df'. astype_int w df = Inr df'"
  unfolding astype_int_def
proof (rule collect_total)
  fix x assume "x \<in> set df"
  with assms obtain n where "py_int w (capacity x) = Inr n" by blast
  then show "\<exists>y. capacity_as_int w x = Inr y" by (simp add: capacity_as_int_Inr)
qed

text \<open>Line 177: when every call returns, the frame is \<open>attach_location\<close>.\<close>

lemma locate_Inr: "locate w data = Inr df \<Longrightarrow> df = attach_location w data"
proof (induction data arbitrary: df)
  case Nil
  then show ?case by (simp add: locate_def attach_location_def)
next
  case (Cons x xs)
  from Cons.prems obtain r rs where df: "df = r # rs"
    and r: "and_then (get_lat_long_call w (country x) (stadium x)) (\<lambda>found.
         Inr \<lparr>rank = rank x, stadium = stadium x, capacity = capacity x, region = region x,
              country = country x, city = city x, images = images x,
              home_team = home_team x, location = found\<rparr>) = Inr r"
    and rs: "locate w xs = Inr rs"
    by (auto simp: locate_def split: sum.splits)
  from r have "r = \<lparr>rank = rank x, stadium = stadium x, capacity = capacity x,
      region = region x, country = country x, city = city x, images = images x,
      home_team = home_team x, location = get_lat_long w (country x) (stadium x)\<rparr>"
    by (auto simp: and_then_def get_lat_long_call_def split: option.splits sum.splits)
  with Cons.IH [OF rs] df show ?case by (simp add: attach_location_def)
qed

lemma locate_total:
  assumes "\<forall>q. geocode_raises w q = None"
  shows "locate w data = Inr (attach_location w data)"
  using assms
  by (induction data)
     (simp_all add: locate_def attach_location_def and_then_def get_lat_long_call_def)

lemma typed_frame_Inr:
  "typed_frame w data = Inr df \<Longrightarrow>
   astype_int w (normalize_images (attach_location w data)) = Inr df"
  by (cases "locate w data") (auto simp: typed_frame_def and_then_def dest: locate_Inr)

lemma typed_frame_total:
  assumes "\<forall>q. geocode_raises w q = None"
    and "\<forall>x\<in>set data. \<exists>n. py_int w (capacity x) = Inr n"
  shows "\<exists>df. typed_frame w data = Inr df"
proof -
  have "\<forall>x\<in>set (normalize_images (attach_location w data)). \<exists>n. py_int w (capacity x) = Inr n"
    using assms(2) by (auto simp: normalize_images_def attach_location_def)
  then obtain df where "astype_int w (normalize_images (attach_location w data)) = Inr df"
    using astype_int_total by blast
  then show ?thesis
    by (simp add: typed_frame_def locate_total [OF assms(1)] and_then_def)
qed

text \<open>The frame before the duplicate pass, row by row.\<close>

lemma frame_before_pass:
  assumes "typed_frame w data = Inr df" and "i < length data"
  shows "length df = length data \<and>
         py_int w (capacity (data ! i)) = Inr (capacity (df ! i)) \<and>
         rank (df ! i) = rank (data ! i) \<and> stadium (df ! i) = stadium (data ! i) \<and>
         country (df ! i) = country (data ! i) \<and> city (df ! i) = city (data ! i) \<and>
         images (df ! i) = image_or_placeholder (images (data ! i)) \<and>
         location (df ! i) = get_lat_long w (country (data ! i)) (stadium (data ! i))"
proof -
  let ?f = "normalize_images (attach_location w data)"
  have len: "length ?f = length data" by (simp add: normalize_images_def attach_location_def)
  from typed_frame_Inr [OF assms(1)] have l: "length df = length ?f"
    and e: "\<forall>i<length ?f. capacity_as_int w (?f ! i) = Inr (df ! i)"
    by (simp_all add: astype_int_Inr)
  from e len assms(2) have "capacity_as_int w (?f ! i) = Inr (df ! i)" by simp
  then obtain n where n: "py_int w (capacity (?f ! i)) = Inr n"
    and d: "df ! i = \<lparr>rank = rank (?f ! i), stadium = stadium (?f ! i), capacity = n,
             region = region (?f ! i), country = country (?f ! i), city = city (?f ! i),
             images = images (?f ! i), home_team = home_team (?f ! i),
             location = location (?f ! i)\<rparr>"
    by (auto simp: capacity_as_int_Inr)
  from assms(2) have f: "?f ! i =
      \<lparr>rank = rank (data ! i), stadium = stadium (data ! i), capacity = capacity (data ! i),
       region = region (data ! i), country = country (data ! i), city = city (data ! i),
       images = image_or_placeholder (images (data ! i)), home_team = home_team (data ! i),
       location = get_lat_long w (country (data ! i)) (stadium (data ! i))\<rparr>"
    by (simp add: normalize_images_def attach_location_def)
  from n d l len show ?thesis unfolding f by simp
qed

text \<open>Lines 181 to 183 and the encoder.\<close>

lemma resolve_duplicates_call_Inr:
  "resolve_duplicates_call w df = Inr out \<Longrightarrow> out = resolve_duplicates w df"
  by (auto simp: resolve_duplicates_call_def Let_def and_then_def
      split: if_splits option.splits sum.splits)

lemma regeocode_calls_total:
  assumes "\<forall>q. geocode_raises w q = None"
  shows "\<exists>found. collect (\<lambda>(i, x). get_lat_long_call w (country x) (city x)) rows = Inr found"
  using assms by (intro collect_total) (auto simp: get_lat_long_call_def)

lemma resolve_duplicates_call_total:
  assumes "\<forall>q. geocode_raises w q = None"
  shows "resolve_duplicates_call w df = Inr (resolve_duplicates w df)"
proof -
  obtain found where
    "collect (\<lambda>(i, x). get_lat_long_call w (country x) (city x))
       (select_mask df (duplicated (map location df))) = Inr found"
    using regeocode_calls_total [OF assms] by blast
  with assms show ?thesis
    by (simp add: resolve_duplicates_call_def Let_def and_then_def)
qed

lemma to_json_Inr:
  assumes "to_json w df = Inr pushed"
  shows "length pushed = length df \<and>
         (\<forall>i<length df.
            pushed ! i =
              (df ! i)\<lparr>location :=
                 map_option (\<lambda>(lat, lon). (json_float w lat, json_float w lon))
                   (location (df ! i))\<rparr>)"
  using assms by (auto simp: to_json_def split: option.splits)

lemma to_json_total:
  assumes "\<forall>df. to_json_raises w df = None"
  shows "\<exists>pushed. to_json w df = Inr pushed"
  using assms by (simp add: to_json_def)

lemma transform_Inr:
  assumes "transform_wikipedia_data w st = Inr (status, st')" and "xcom_extract st = Some data"
  shows "\<exists>df pushed. typed_frame w data = Inr df \<and> data \<noteq> [] \<and> status = ''OK'' \<and>
              to_json w (resolve_duplicates w df) = Inr pushed \<and>
              st' = st\<lparr>xcom_transform := Some pushed\<rparr>"
proof -
  from assms have ne: "data \<noteq> []"
    by (auto simp: transform_wikipedia_data_def split: if_splits)
  from assms ne obtain df where df: "typed_frame w data = Inr df"
    by (cases "typed_frame w data") (auto simp: transform_wikipedia_data_def and_then_def)
  from assms ne df obtain out where out: "resolve_duplicates_call w df = Inr out"
    by (cases "resolve_duplicates_call w df")
       (auto simp: transform_wikipedia_data_def and_then_def)
  then have o: "out = resolve_duplicates w df" by (rule resolve_duplicates_call_Inr)
  from assms ne df out obtain pushed where p: "to_json w out = Inr pushed"
    by (cases "to_json w out") (auto simp: transform_wikipedia_data_def and_then_def)
  from assms ne df out p o show ?thesis
    by (auto simp: transform_wikipedia_data_def and_then_def)
qed

lemma transform_total:
  assumes "xcom_extract st = Some data" and "data \<noteq> []"
    and "\<forall>x\<in>set data. \<exists>n. py_int w (capacity x) = Inr n"
    and "\<forall>q. geocode_raises w q = None" and "\<forall>df. to_json_raises w df = None"
  shows "\<exists>df pushed. typed_frame w data = Inr df \<and>
     to_json w (resolve_duplicates w df) = Inr pushed \<and>
     transform_wikipedia_data w st = Inr (''OK'', st\<lparr>xcom_transform := Some pushed\<rparr>)"
proof -
  from typed_frame_total [OF assms(4,3)] obtain df where df: "typed_frame w data = Inr df"
    by blast
  from to_json_total [OF assms(5)] obtain pushed where
    p: "to_json w (resolve_duplicates w df) = Inr pushed"
    by blast
  with assms(1,2) df show ?thesis
    by (simp add: transform_wikipedia_data_def and_then_def
        resolve_duplicates_call_total [OF assms(4)])
qed

lemma five_frame_length: "length five_frame = 5"
  using arg_cong [OF five_frame_eq(1), of length] by simp

lemma serve_never_raises:
  "\<forall>q. geocode_raises (serve rows geo) q = None"
  "\<forall>df. to_json_raises (serve rows geo) df = None"
  by (simp_all add: serve_def)

lemma to_json_serve: "to_json (serve rows geo) df = Inr df"
proof -
  have "map_option (\<lambda>(lat, lon). (lat, lon)) v = v" for v :: "(real \<times> real) option"
    by (cases v) auto
  then show ?thesis by (simp add: to_json_def serve_def)
qed

lemma five_records_parse:
  "\<forall>x\<in>set five_records. \<exists>n. py_int (serve [] atlas) (capacity x) = Inr n"
  by (simp add: five_defs int_defs lit_def)

lemma five_transform:
  "transform_wikipedia_data (serve [] atlas) five_pushed =
     Inr (''OK'', five_pushed\<lparr>xcom_transform :=
                    Some (resolve_duplicates (serve [] atlas) five_frame)\<rparr>)"
proof -
  have x: "xcom_extract five_pushed = Some five_records" by (simp add: five_pushed_def)
  have ne: "five_records \<noteq> []" by (simp add: five_records_def)
  from transform_total [OF x ne five_records_parse serve_never_raises]
  obtain df pushed where df: "typed_frame (serve [] atlas) five_records = Inr df"
    and p: "to_json (serve [] atlas) (resolve_duplicates (serve [] atlas) df) = Inr pushed"
    and t: "transform_wikipedia_data (serve [] atlas) five_pushed =
              Inr (''OK'', five_pushed\<lparr>xcom_transform := Some pushed\<rparr>)"
    by blast
  from typed_frame_Inr [OF df] have "five_frame = df" by (simp add: five_frame_def)
  with p t show ?thesis by (simp add: to_json_serve)
qed

section \<open>From the cell to the stored capacity\<close>


lemma strip_separators:
  "py_replace (py_replace s (lit '','') []) (lit ''.'') [] = filter (\<lambda>c. c \<notin> set (lit '',.'')) s"
proof -
  have "lit '','' = [44]" "lit ''.'' = [46]" "set (lit '',.'') = {44, 46}"
    by (simp_all add: lit_def)
  then show ?thesis by (simp add: py_replace_single conj_commute)
qed

lemma extract_OK:
  assumes "http_get w url = Inr html" and "select_tables w html = rows # others"
    and "extract_wikipedia_data w url st = (Some ''OK'', st1)"
  shows "\<exists>data. map_rows rows = Inr data \<and> xcom_extract st1 = Some data"
  using assms(3) unfolding extract_on_table [OF assms(1,2)]
  by (cases "map_rows rows") (auto simp: Let_def could_not_get_rows_def)

lemma sample_map_rows:
  "map_rows [header_row, wembley_row, azteca_row] =
     Inr [\<lparr>rank = 1, stadium = lit ''Wembley Stadium'', capacity = lit ''90000'',
            region = lit ''Europe'', country = lit ''England'', city = lit ''London'',
            images = Some (lit ''https://upload.wikimedia.org/wembley.jpg''),
            home_team = lit ''England national team''\<rparr>,
          \<lparr>rank = 2, stadium = lit ''Estadio Azteca'', capacity = lit ''87523'',
            region = lit ''North America'', country = lit ''Mexico'', city = lit ''Mexico City'',
            images = Some (lit ''NO_IMAGE''),
            home_team = lit ''Mexico national team''\<rparr>]"
  by (simp add: map_rows_def upt_rec wembley_record azteca_record)

section \<open>The field cleaner: claims\<close>

lemma clean_text_example:
  "clean_text (lit ''Stadium'' @ diamond @ lit ''[3] (formerly)'') = lit ''Stadium''"
  by (simp add: cleaner_defs)

lemma clean_text_agrees_with_spec:
  "find_idx (remove_all (py_strip t) (lit ''&nbsp'')) diamond \<noteq> Some 0 \<Longrightarrow>
   clean_text t = clean_text_spec t"
  by (simp add: clean_text_alt clean_text_spec_def diamond_step_def)

text \<open>
  Claim C2, as stated: \<open>clean_text (clean_text x) = clean_text x\<close> for every string.
  It fails on \<open>'Stadium [1]'\<close>: the footnote is cut after the trim, which leaves
  \<open>'Stadium '\<close> with its trailing space, and a second pass trims it to \<open>'Stadium'\<close>.
\<close>

theorem clean_text_not_idempotent:
  "clean_text (clean_text (lit ''Stadium [1]'')) \<noteq> clean_text (lit ''Stadium [1]'')"
  by (simp add: cleaner_defs)

text \<open>
  Claim C2, amended: a second pass of \<open>clean_text\<close> changes nothing exactly when the
  first pass returned a string with no surrounding whitespace that contains none of
  \<open>'&nbsp'\<close>, \<open>' \<diamond>'\<close>, \<open>'['\<close>, \<open>' (formerly)'\<close> and no newline.
\<close>

theorem clean_text_idempotent_iff:
  "clean_text (clean_text x) = clean_text x \<longleftrightarrow> is_clean (clean_text x)"
  using is_clean_fixed [of "clean_text x"] fixed_is_clean [of "clean_text x"] by blast

theorem clean_text_idempotent_iff_witness:
  "is_clean (clean_text (lit '' Wembley'')) \<and>
   clean_text (clean_text (lit '' Wembley'')) = clean_text (lit '' Wembley'')"
proof -
  have c: "is_clean (clean_text (lit '' Wembley''))"
    by (simp add: is_clean_def cleaner_defs)
  with clean_text_idempotent_iff [of "lit '' Wembley''"] show ?thesis by blast
qed

text \<open>
  Claim C3: the six rules in order, each on the output of the one before. The code
  tests \<open>text.find(' \<diamond>')\<close> for truth instead of comparing it with \<open>-1\<close>, so a
  marker at index 0 is not cut: \<open>'&nbsp \<diamond>x'\<close> becomes \<open>' \<diamond>x'\<close> once
  \<open>'&nbsp'\<close> is removed and comes back as \<open>' \<diamond>x'\<close>, where the rules give
  the empty string.
\<close>

theorem clean_text_marker_at_start:
  "clean_text (lit ''&nbsp'' @ diamond @ lit ''x'') = diamond @ lit ''x'' \<and>
   clean_text_spec (lit ''&nbsp'' @ diamond @ lit ''x'') = []"
  by (simp add: cleaner_defs)


section \<open>The extract stage: claims\<close>




text \<open>
  Claim C5: if a data row has fewer than 7 cells, the stage returns \<open>None\<close> instead
  of \<open>'OK'\<close>, leaves the result store as it was, and its last log line is the error
  \<open>'could not get rows due to ...'\<close>.
\<close>

theorem extract_all_or_nothing:
  assumes "http_get w url = Inr html" and "select_tables w html = rows # others"
    and "i \<in> {1..<length rows}" and "length (rows ! i) < 7"
  shows "\<exists>e st'.
           extract_wikipedia_data w url st = (None, st') \<and>
           xcom_extract st' = xcom_extract st \<and>
           xcom_transform st' = xcom_transform st \<and>
           logged st' =
             logged st @
               [Stdout ''Getting wikipedia page...'' url, LogInfo ''Data retrieved from page...'',
                LogInfo ''Rows retrieved'', LogError ''could not get rows due to '' e]"
proof -
  from assms(3,4) obtain e where "map_rows rows = Inl e"
    using map_rows_short by blast
  then show ?thesis
    by (simp add: extract_on_table [OF assms(1,2)] Let_def could_not_get_rows_def say_def)
qed

theorem extract_all_or_nothing_witness:
  "\<exists>e st'.
     extract_wikipedia_data (serve [header_row, wembley_row, short_row] nowhere) (lit ''url'')
       start = (None, st') \<and>
     xcom_extract st' = None \<and> xcom_transform st' = None \<and>
     logged st' =
       [Stdout ''Getting wikipedia page...'' (lit ''url''),
        LogInfo ''Data retrieved from page...'', LogInfo ''Rows retrieved'',
        LogError ''could not get rows due to '' e]"
proof -
  have i: "2 \<in> {1..<length [header_row, wembley_row, short_row]}" by simp
  have short: "length ([header_row, wembley_row, short_row] ! 2) < 7"
    by (simp add: short_row_def)
  from extract_all_or_nothing [OF serve_simps(1) serve_simps(2) i short,
      of nowhere "lit ''url''" start]
  show ?thesis by (simp add: start_def)
qed

text \<open>
  Claim C8, as stated: every table of N+1 rows yields exactly N records. A table whose
  only data row has two cells yields none: the stage fails as a whole.
\<close>

theorem extract_short_row_no_records:
  "length [header_row, short_row] = 1 + 1 \<and>
   fst (extract_wikipedia_data (serve [header_row, short_row] nowhere) (lit ''url'') start)
     = None \<and>
   xcom_extract
     (snd (extract_wikipedia_data (serve [header_row, short_row] nowhere) (lit ''url'') start))
     = None"
  by (simp add: extract_on_table [OF serve_simps(1) serve_simps(2)] map_rows_def upt_rec
      short_row_def plain_def row_defs could_not_get_rows_def say_def start_def Let_def)

text \<open>
  Claim C8, amended: for a table of N+1 rows whose data rows (index 1 to N) can all be
  mapped, the stage returns \<open>'OK'\<close> and stores exactly N records, the record at
  position k (from 0) having rank k+1; the row at index 0 contributes none.
\<close>

theorem extract_ranks:
  assumes "http_get w url = Inr html" and "select_tables w html = rows # others"
    and "\<forall>i\<in>{1..<length rows}. mappable (rows ! i)"
  shows "\<exists>data st'.
           extract_wikipedia_data w url st = (Some ''OK'', st') \<and>
           xcom_extract st' = Some data \<and>
           length data = length rows - 1 \<and>
           (\<forall>k<length data. rank (data ! k) = int k + 1)"
proof -
  from assms(3) obtain data where d: "map_rows rows = Inr data"
    using map_rows_total by blast
  then have len: "length data = length rows - 1"
    and each: "\<forall>k<length data. map_row (int k + 1) (rows ! (k + 1)) = Inr (data ! k)"
    by (simp_all add: map_rows_Inr_iff)
  have "\<forall>k<length data. rank (data ! k) = int k + 1"
  proof (intro allI impI)
    fix k assume "k < length data"
    with each have "map_row (int k + 1) (rows ! (k + 1)) = Inr (data ! k)" by simp
    then show "rank (data ! k) = int k + 1" by (auto simp: map_row_Inr_iff)
  qed
  with d len show ?thesis
    by (simp add: extract_on_table [OF assms(1,2)] Let_def)
qed

theorem extract_ranks_witness:
  "\<exists>data st'.
     extract_wikipedia_data (serve [header_row, wembley_row, azteca_row] nowhere) (lit ''url'')
       start = (Some ''OK'', st') \<and>
     xcom_extract st' = Some data \<and> map rank data = [1, 2]"
proof -
  have "{1..<length [header_row, wembley_row, azteca_row]} = {1, 2}" by auto
  then have ok: "\<forall>i\<in>{1..<length [header_row, wembley_row, azteca_row]}.
                    mappable ([header_row, wembley_row, azteca_row] ! i)"
    by (simp add: sample_mappable)
  from extract_ranks [OF serve_simps(1) serve_simps(2) ok, of nowhere "lit ''url''" start]
  obtain data st' where
    r: "extract_wikipedia_data (serve [header_row, wembley_row, azteca_row] nowhere)
          (lit ''url'') start = (Some ''OK'', st')"
       "xcom_extract st' = Some data" and
    len: "length data = 2" and rk: "\<forall>k<length data. rank (data ! k) = int k + 1"
    by auto
  from len obtain a b where ab: "data = [a, b]"
    by (auto simp: length_Suc_conv numeral_2_eq_2)
  with rk have "rank a = 1" "rank b = 2" by auto
  with r ab show ?thesis by simp
qed

section \<open>The transform stage: claims\<close>

text \<open>
  Claim C1, as stated: every duplicate has its \<open>location\<close> overwritten with the result
  of the (country, city) query. In the sample frame the fifth row repeats the first row's
  point and its city query resolves nothing; \<open>update\<close> skips the missing value and the row
  keeps the point it had.
\<close>

theorem duplicate_not_overwritten_by_miss:
  "location (five_frame ! 4) = location (five_frame ! 0) \<and>
   get_lat_long (serve [] atlas) (country (five_frame ! 4)) (city (five_frame ! 4)) = None \<and>
   location (resolve_duplicates (serve [] atlas) five_frame ! 4) = Some (51, 0)"
proof -
  have l: "location (five_frame ! 4) = Some (51, 0)" "location (five_frame ! 0) = Some (51, 0)"
    using arg_cong [OF five_frame_eq(1), of "\<lambda>xs. xs ! 4"]
      arg_cong [OF five_frame_eq(1), of "\<lambda>xs. xs ! 0"]
    by (simp_all add: five_frame_length)
  have c: "country (five_frame ! 4) = lit ''England''" "city (five_frame ! 4) = lit ''Manchester''"
    using arg_cong [OF five_frame_eq(4), of "\<lambda>xs. xs ! 4"]
      arg_cong [OF five_frame_eq(3), of "\<lambda>xs. xs ! 4"]
    by (simp_all add: five_frame_length)
  have g: "get_lat_long (serve [] atlas) (lit ''England'') (lit ''Manchester'') = None"
    by (simp add: get_lat_long_def serve_def atlas_def lit_def)
  have d: "\<exists>j<4. location (five_frame ! j) = location (five_frame ! 4)"
    using l by (intro exI [of _ 0]) simp
  have "4 < length five_frame" by (simp add: five_frame_length)
  from resolve_duplicates_nth [OF this, of "serve [] atlas"] d l c g show ?thesis by simp
qed

text \<open>
  Claim C1, amended: the pass keeps the number of rows; a row whose \<open>location\<close> equals
  that of an earlier row is re-geocoded with (country, city) and takes the result when
  there is one, keeping its \<open>location\<close> when there is none, all other fields unchanged;
  a row whose \<open>location\<close> equals that of no earlier row (every first-seen original) is
  left as it was.
\<close>

theorem duplicate_pass:
  assumes "i < length df"
  shows "length (resolve_duplicates w df) = length df \<and>
     ((\<exists>j<i. location (df ! j) = location (df ! i)) \<longrightarrow>
        resolve_duplicates w df ! i =
          (df ! i)\<lparr>location :=
             (case get_lat_long w (country (df ! i)) (city (df ! i)) of
                None \<Rightarrow> location (df ! i) | Some c \<Rightarrow> Some c)\<rparr>) \<and>
     ((\<forall>j<i. location (df ! j) \<noteq> location (df ! i)) \<longrightarrow> resolve_duplicates w df ! i = df ! i)"
  using assms by (auto simp: length_resolve_duplicates resolve_duplicates_nth)

theorem duplicate_pass_witness:
  "2 < length five_frame \<and> location (five_frame ! 0) = location (five_frame ! 2) \<and>
   location (resolve_duplicates (serve [] atlas) five_frame ! 2) = Some (52, 1) \<and>
   resolve_duplicates (serve [] atlas) five_frame ! 0 = five_frame ! 0"
proof -
  have n: "2 < length five_frame" "0 < length five_frame" by (simp_all add: five_frame_length)
  have l: "location (five_frame ! 2) = Some (51, 0)" "location (five_frame ! 0) = Some (51, 0)"
    using arg_cong [OF five_frame_eq(1), of "\<lambda>xs. xs ! 2"]
      arg_cong [OF five_frame_eq(1), of "\<lambda>xs. xs ! 0"]
    by (simp_all add: five_frame_length)
  have c: "country (five_frame ! 2) = lit ''England''" "city (five_frame ! 2) = lit ''London''"
    using arg_cong [OF five_frame_eq(4), of "\<lambda>xs. xs ! 2"]
      arg_cong [OF five_frame_eq(3), of "\<lambda>xs. xs ! 2"]
    by (simp_all add: five_frame_length)
  have g: "get_lat_long (serve [] atlas) (lit ''England'') (lit ''London'') = Some (52, 1)"
    by (simp add: get_lat_long_def serve_def atlas_def lit_def)
  have d: "\<exists>j<2. location (five_frame ! j) = location (five_frame ! 2)"
    using l by (intro exI [of _ 0]) simp
  from duplicate_pass [OF n(1), of "serve [] atlas"] duplicate_pass [OF n(2), of "serve [] atlas"]
    d l c g n
  show ?thesis by simp
qed

text \<open>
  Claim C10: a duplicate whose (country, city) query resolves nothing comes out of the
  pass unchanged; its previous \<open>location\<close> is retained.
\<close>

theorem regeocode_miss_keeps_location:
  assumes "i < length df" and "j < i" and "location (df ! j) = location (df ! i)"
    and "get_lat_long w (country (df ! i)) (city (df ! i)) = None"
  shows "resolve_duplicates w df ! i = df ! i"
proof -
  from assms(2,3) have "\<exists>j<i. location (df ! j) = location (df ! i)" by blast
  with assms(1,4) show ?thesis by (simp add: resolve_duplicates_nth)
qed

theorem regeocode_miss_keeps_location_witness:
  "4 < length five_frame \<and> location (five_frame ! 0) = location (five_frame ! 4) \<and>
   get_lat_long (serve [] atlas) (country (five_frame ! 4)) (city (five_frame ! 4)) = None \<and>
   resolve_duplicates (serve [] atlas) five_frame ! 4 = five_frame ! 4 \<and>
   location (five_frame ! 4) = Some (51, 0)"
proof -
  have n: "4 < length five_frame" by (simp add: five_frame_length)
  have l: "location (five_frame ! 4) = Some (51, 0)" "location (five_frame ! 0) = Some (51, 0)"
    using arg_cong [OF five_frame_eq(1), of "\<lambda>xs. xs ! 4"]
      arg_cong [OF five_frame_eq(1), of "\<lambda>xs. xs ! 0"]
    by (simp_all add: five_frame_length)
  have c: "country (five_frame ! 4) = lit ''England''" "city (five_frame ! 4) = lit ''Manchester''"
    using arg_cong [OF five_frame_eq(4), of "\<lambda>xs. xs ! 4"]
      arg_cong [OF five_frame_eq(3), of "\<lambda>xs. xs ! 4"]
    by (simp_all add: five_frame_length)
  have g: "get_lat_long (serve [] atlas) (country (five_frame ! 4)) (city (five_frame ! 4)) = None"
    unfolding c by (simp add: get_lat_long_def serve_def atlas_def lit_def)
  have e: "location (five_frame ! 0) = location (five_frame ! 4)" using l by simp
  from regeocode_miss_keeps_location [OF n _ e g] n l g show ?thesis by simp
qed

text \<open>
  Claim C9, as stated: a record whose query resolves nothing leaves the stage with a null
  \<open>location\<close>. Two missing locations are equal, so the second such record is a
  duplicate: in the sample the fourth record's stadium query fails like the second's,
  its city query resolves, and it leaves the stage with coordinates.
\<close>

theorem second_miss_gets_coordinates:
  "get_lat_long (serve [] atlas) (country (five_records ! 3)) (stadium (five_records ! 3)) = None \<and>
   (\<exists>out. transform_wikipedia_data (serve [] atlas) five_pushed =
            Inr (''OK'', five_pushed\<lparr>xcom_transform := Some out\<rparr>) \<and>
          location (out ! 3) = Some (20, - 103))"
proof -
  have p: "get_lat_long (serve [] atlas) (country (five_records ! 3)) (stadium (five_records ! 3))
             = None"
    by (simp add: five_defs get_lat_long_def lit_def)
  have n: "3 < length five_frame" by (simp add: five_frame_length)
  have l: "location (five_frame ! 3) = None" "location (five_frame ! 1) = None"
    using arg_cong [OF five_frame_eq(1), of "\<lambda>xs. xs ! 3"]
      arg_cong [OF five_frame_eq(1), of "\<lambda>xs. xs ! 1"]
    by (simp_all add: five_frame_length)
  have c: "country (five_frame ! 3) = lit ''Mexico''" "city (five_frame ! 3) = lit ''Guadalajara''"
    using arg_cong [OF five_frame_eq(4), of "\<lambda>xs. xs ! 3"]
      arg_cong [OF five_frame_eq(3), of "\<lambda>xs. xs ! 3"]
    by (simp_all add: five_frame_length)
  have g: "get_lat_long (serve [] atlas) (lit ''Mexico'') (lit ''Guadalajara'') = Some (20, - 103)"
    by (simp add: get_lat_long_def serve_def atlas_def lit_def)
  have d: "\<exists>j<3. location (five_frame ! j) = location (five_frame ! 3)"
    using l by (intro exI [of _ 1]) simp
  have "location (resolve_duplicates (serve [] atlas) five_frame ! 3) = Some (20, - 103)"
    unfolding resolve_duplicates_nth [OF n] if_P [OF d] by (simp add: c g)
  with p five_transform show ?thesis by blast
qed

text \<open>
  Claim C9, amended: the call returns the pair of the service's answer and \<open>None\<close>
  when there is no answer; a record whose (country, stadium) query resolves nothing does
  not fail the batch: when no service call raises, the stored records are not empty, their
  capacities parse and the encoder accepts the frame, the stage returns \<open>'OK'\<close> and
  pushes a row per record. In the pushed value that record's \<open>location\<close> is null
  unless an earlier record's query failed too, in which case it is the result of its
  (country, city) query, as the encoder writes it.
\<close>

theorem geocode_miss_keeps_batch:
  assumes "xcom_extract st = Some data" and "data \<noteq> []"
    and "\<forall>x\<in>set data. \<exists>n. py_int w (capacity x) = Inr n"
    and "\<forall>q. geocode_raises w q = None" and "\<forall>df. to_json_raises w df = None"
    and "i < length data"
    and "get_lat_long w (country (data ! i)) (stadium (data ! i)) = None"
  shows "(geocode w (name @ lit '', '' @ land) = None \<longrightarrow>
            get_lat_long_call w land name = Inr None) \<and>
         (\<forall>loc. geocode w (name @ lit '', '' @ land) = Some loc \<longrightarrow>
                get_lat_long_call w land name = Inr (Some (latitude loc, longitude loc))) \<and>
         (\<exists>out st'.
            transform_wikipedia_data w st = Inr (''OK'', st') \<and>
            xcom_transform st' = Some out \<and> length out = length data \<and>
            location (out ! i) =
              (if \<exists>j<i. get_lat_long w (country (data ! j)) (stadium (data ! j)) = None
               then map_option (\<lambda>(lat, lon). (json_float w lat, json_float w lon))
                      (get_lat_long w (country (data ! i)) (city (data ! i)))
               else None))"
proof -
  from transform_total [OF assms(1-5)] obtain df pushed where
    df: "typed_frame w data = Inr df" and
    p: "to_json w (resolve_duplicates w df) = Inr pushed" and
    t: "transform_wikipedia_data w st = Inr (''OK'', st\<lparr>xcom_transform := Some pushed\<rparr>)"
    by blast
  from frame_before_pass [OF df assms(6)] have len: "length df = length data" by simp
  have rows: "\<forall>k<length data.
             location (df ! k) = get_lat_long w (country (data ! k)) (stadium (data ! k)) \<and>
             country (df ! k) = country (data ! k) \<and> city (df ! k) = city (data ! k)"
    using frame_before_pass [OF df] by simp
  from assms(6) len have i: "i < length df" by simp
  from rows assms(6,7) have li: "location (df ! i) = None"
    and ci: "country (df ! i) = country (data ! i)" "city (df ! i) = city (data ! i)"
    by simp_all
  have dup: "(\<exists>j<i. location (df ! j) = location (df ! i)) \<longleftrightarrow>
             (\<exists>j<i. get_lat_long w (country (data ! j)) (stadium (data ! j)) = None)"
    using rows assms(6) li by (metis less_trans)
  let ?again = "get_lat_long w (country (data ! i)) (city (data ! i))"
  have before: "location (resolve_duplicates w df ! i) =
          (if \<exists>j<i. get_lat_long w (country (data ! j)) (stadium (data ! j)) = None
           then ?again else None)"
  proof (cases "\<exists>j<i. location (df ! j) = location (df ! i)")
    case True
    then have d': "\<exists>j<i. get_lat_long w (country (data ! j)) (stadium (data ! j)) = None"
      using dup by simp
    show ?thesis
      unfolding if_P [OF d'] resolve_duplicates_nth [OF i] if_P [OF True]
      by (simp add: li ci split: option.splits)
  next
    case False
    then have d': "\<not> (\<exists>j<i. get_lat_long w (country (data ! j)) (stadium (data ! j)) = None)"
      using dup by simp
    show ?thesis
      unfolding if_not_P [OF d'] resolve_duplicates_nth [OF i] if_not_P [OF False]
      by (simp add: li)
  qed
  from i have i': "i < length (resolve_duplicates w df)"
    by (simp add: length_resolve_duplicates)
  from to_json_Inr [OF p] i' have pl: "length pushed = length df"
    and "location (pushed ! i) =
           map_option (\<lambda>(lat, lon). (json_float w lat, json_float w lon))
             (location (resolve_duplicates w df ! i))"
    by (simp_all add: length_resolve_duplicates)
  with before have "location (pushed ! i) =
          (if \<exists>j<i. get_lat_long w (country (data ! j)) (stadium (data ! j)) = None
           then map_option (\<lambda>(lat, lon). (json_float w lat, json_float w lon)) ?again
           else None)"
    by (simp only: if_distrib [of "map_option (\<lambda>(lat, lon). (json_float w lat, json_float w lon))"]
        option.map)
  with t pl len have stage: "\<exists>out st'.
            transform_wikipedia_data w st = Inr (''OK'', st') \<and>
            xcom_transform st' = Some out \<and> length out = length data \<and>
            location (out ! i) =
              (if \<exists>j<i. get_lat_long w (country (data ! j)) (stadium (data ! j)) = None
               then map_option (\<lambda>(lat, lon). (json_float w lat, json_float w lon))
                      (get_lat_long w (country (data ! i)) (city (data ! i)))
               else None)"
    by (intro exI [of _ pushed] exI [of _ "st\<lparr>xcom_transform := Some pushed\<rparr>"]) simp
  have call: "(geocode w (name @ lit '', '' @ land) = None \<longrightarrow>
            get_lat_long_call w land name = Inr None) \<and>
         (\<forall>loc. geocode w (name @ lit '', '' @ land) = Some loc \<longrightarrow>
                get_lat_long_call w land name = Inr (Some (latitude loc, longitude loc)))"
    using assms(4) by (simp add: get_lat_long_call_def get_lat_long_def)
  from call stage show ?thesis by blast
qed

theorem geocode_miss_keeps_batch_witness:
  "get_lat_long_call (serve [] atlas) (lit ''Mexico'') (lit ''Estadio Azteca'') = Inr None \<and>
   (\<exists>out st'.
      transform_wikipedia_data (serve [] atlas) five_pushed = Inr (''OK'', st') \<and>
      xcom_transform st' = Some out \<and> length out = 5 \<and> location (out ! 1) = None)"
proof -
  have x: "xcom_extract five_pushed = Some five_records" by (simp add: five_pushed_def)
  have ne: "five_records \<noteq> []" by (simp add: five_records_def)
  have i: "1 < length five_records" by (simp add: five_records_def)
  have p: "get_lat_long (serve [] atlas) (country (five_records ! 1)) (stadium (five_records ! 1))
             = None"
    by (simp add: five_defs get_lat_long_def lit_def)
  have q: "\<not> (\<exists>j<1. get_lat_long (serve [] atlas) (country (five_records ! j))
                       (stadium (five_records ! j)) = None)"
    by (simp add: five_defs get_lat_long_def lit_def)
  have g: "geocode (serve [] atlas) (lit ''Estadio Azteca'' @ lit '', '' @ lit ''Mexico'') = None"
    by (simp add: serve_def atlas_def lit_def)
  from geocode_miss_keeps_batch [OF x ne five_records_parse serve_never_raises i p,
      of "lit ''Estadio Azteca''" "lit ''Mexico''"] g
  show ?thesis unfolding if_not_P [OF q] by (auto simp: five_records_def)
qed

text \<open>
  Claim C6: in the output of the stage, a record whose \<open>images\<close> was \<open>None\<close>, the
  empty string or \<open>'NO_IMAGE'\<close> holds the placeholder URL, and any other value is
  unchanged.
\<close>

theorem image_placeholder:
  assumes "transform_wikipedia_data w st = Inr (status, st')"
    and "xcom_extract st = Some data" and "i < length data"
  shows "\<exists>out. xcom_transform st' = Some out \<and> length out = length data \<and>
     (images (data ! i) \<in> {None, Some [], Some (lit ''NO_IMAGE'')} \<longrightarrow>
        images (out ! i) = Some NO_IMAGE) \<and>
     (images (data ! i) \<notin> {None, Some [], Some (lit ''NO_IMAGE'')} \<longrightarrow>
        images (out ! i) = images (data ! i))"
proof -
  from transform_Inr [OF assms(1,2)] obtain df pushed where
    a: "typed_frame w data = Inr df" and
    p: "to_json w (resolve_duplicates w df) = Inr pushed" and
    st': "st' = st\<lparr>xcom_transform := Some pushed\<rparr>"
    by blast
  from frame_before_pass [OF a assms(3)] have len: "length df = length data"
    and im: "images (df ! i) = image_or_placeholder (images (data ! i))"
    by simp_all
  from assms(3) len have i: "i < length df" by simp
  have "images (resolve_duplicates w df ! i) = images (df ! i)"
    unfolding resolve_duplicates_nth [OF i] by simp
  moreover from to_json_Inr [OF p] i have "length pushed = length df"
    and "images (pushed ! i) = images (resolve_duplicates w df ! i)"
    by (simp_all add: length_resolve_duplicates)
  ultimately show ?thesis using im st' len
    by (auto simp: image_or_placeholder_def)
qed

theorem image_placeholder_witness:
  "images (five_records ! 2) = None \<and>
   images (five_records ! 0) = Some (lit ''https://upload.wikimedia.org/wembley.jpg'') \<and>
   (\<exists>out st'.
      transform_wikipedia_data (serve [] atlas) five_pushed = Inr (''OK'', st') \<and>
      xcom_transform st' = Some out \<and>
      images (out ! 2) = Some NO_IMAGE \<and>
      images (out ! 0) = Some (lit ''https://upload.wikimedia.org/wembley.jpg''))"
proof -
  have x: "xcom_extract five_pushed = Some five_records" by (simp add: five_pushed_def)
  have i: "2 < length five_records" "0 < length five_records" by (simp_all add: five_records_def)
  have a: "images (five_records ! 2) = None"
    "images (five_records ! 0) = Some (lit ''https://upload.wikimedia.org/wembley.jpg'')"
    by (simp_all add: five_defs)
  have b: "Some (lit ''https://upload.wikimedia.org/wembley.jpg'') \<notin>
             {None, Some [], Some (lit ''NO_IMAGE'')}"
    by (simp add: lit_def)
  from image_placeholder [OF five_transform x i(1)] image_placeholder [OF five_transform x i(2)]
    a b five_transform
  show ?thesis by auto
qed

text \<open>
  Claim C7: the capacity a record carries out of the extract stage is the cell text
  cleaned by \<open>clean_text\<close> with every comma and period removed, and the transform
  stage's \<open>astype(int)\<close> makes it the integer \<open>int()\<close> reads from that text;
  \<open>'90,000'\<close> gives 90000 and \<open>'1.234'\<close> gives 1234.
\<close>

theorem capacity_parsing:
  assumes "http_get w url = Inr html" and "select_tables w html = rows # others"
    and "extract_wikipedia_data w url st = (Some ''OK'', st1)"
    and "transform_wikipedia_data w st1 = Inr (status, st2)"
    and "k + 1 < length rows"
  shows "(\<exists>data stadiums_df.
            xcom_extract st1 = Some data \<and> typed_frame w data = Inr stadiums_df \<and>
            length data = length rows - 1 \<and> length stadiums_df = length data \<and>
            capacity (data ! k) =
              filter (\<lambda>c. c \<notin> set (lit '',.'')) (clean_text (td_text (rows ! (k + 1) ! 1))) \<and>
            py_int w (capacity (data ! k)) = Inr (capacity (stadiums_df ! k))) \<and>
         py_int w (filter (\<lambda>c. c \<notin> set (lit '',.'')) (clean_text (lit ''90,000''))) = Inr 90000 \<and>
         py_int w (filter (\<lambda>c. c \<notin> set (lit '',.'')) (clean_text (lit ''1.234''))) = Inr 1234"
proof -
  from extract_OK [OF assms(1-3)] obtain data where
    m: "map_rows rows = Inr data" and x: "xcom_extract st1 = Some data"
    by blast
  from m have len: "length data = length rows - 1"
    and each: "\<forall>j<length data. map_row (int j + 1) (rows ! (j + 1)) = Inr (data ! j)"
    by (simp_all add: map_rows_Inr_iff)
  from assms(5) len have k: "k < length data" by simp
  with each have "map_row (int k + 1) (rows ! (k + 1)) = Inr (data ! k)" by simp
  then have cap: "capacity (data ! k) =
      filter (\<lambda>c. c \<notin> set (lit '',.'')) (clean_text (td_text (rows ! (k + 1) ! 1)))"
    by (auto simp: map_row_Inr_iff strip_separators)
  from transform_Inr [OF assms(4) x] obtain df where a: "typed_frame w data = Inr df"
    by blast
  from frame_before_pass [OF a k] have dl: "length df = length data"
    and pi: "py_int w (capacity (data ! k)) = Inr (capacity (df ! k))"
    by simp_all
  from x a len dl cap pi have
    "\<exists>data stadiums_df.
        xcom_extract st1 = Some data \<and> typed_frame w data = Inr stadiums_df \<and>
        length data = length rows - 1 \<and> length stadiums_df = length data \<and>
        capacity (data ! k) =
          filter (\<lambda>c. c \<notin> set (lit '',.'')) (clean_text (td_text (rows ! (k + 1) ! 1))) \<and>
        py_int w (capacity (data ! k)) = Inr (capacity (stadiums_df ! k))"
    by blast
  moreover have
    "py_int w (filter (\<lambda>c. c \<notin> set (lit '',.'')) (clean_text (lit ''90,000''))) = Inr 90000"
    "py_int w (filter (\<lambda>c. c \<notin> set (lit '',.'')) (clean_text (lit ''1.234''))) = Inr 1234"
    by (simp_all add: cleaner_defs int_defs)
  ultimately show ?thesis by blast
qed

theorem capacity_parsing_witness:
  "\<exists>st1 st2 data stadiums_df.
     extract_wikipedia_data (serve [header_row, wembley_row, azteca_row] atlas) (lit ''url'') start
       = (Some ''OK'', st1) \<and>
     transform_wikipedia_data (serve [header_row, wembley_row, azteca_row] atlas) st1
       = Inr (''OK'', st2) \<and>
     xcom_extract st1 = Some data \<and>
     typed_frame (serve [header_row, wembley_row, azteca_row] atlas) data = Inr stadiums_df \<and>
     td_text (wembley_row ! 1) = lit ''90,000'' \<and>
     capacity (data ! 0) = lit ''90000'' \<and> capacity (stadiums_df ! 0) = 90000"
proof -
  let ?w = "serve [header_row, wembley_row, azteca_row] atlas"
  let ?rows = "[header_row, wembley_row, azteca_row]"
  obtain data where data: "map_rows ?rows = Inr data" and
    d0: "capacity (data ! 0) = lit ''90000''" and dn: "data \<noteq> []" and
    dp: "\<forall>x\<in>set data. \<exists>n. py_int ?w (capacity x) = Inr n"
    using sample_map_rows
    by (simp add: int_defs lit_def serve_def)
  obtain st1 where e: "extract_wikipedia_data ?w (lit ''url'') start = (Some ''OK'', st1)"
    and x: "xcom_extract st1 = Some data"
    using data by (simp add: extract_on_table [OF serve_simps(1) serve_simps(2)] Let_def)
  from transform_total [OF x dn dp serve_never_raises] obtain st2 where
    t: "transform_wikipedia_data ?w st1 = Inr (''OK'', st2)"
    by blast
  have k: "0 + 1 < length ?rows" by simp
  from capacity_parsing [OF serve_simps(1) serve_simps(2) e t k] x obtain df where
    o: "typed_frame ?w data = Inr df" and
    p: "py_int ?w (capacity (data ! 0)) = Inr (capacity (df ! 0))"
    by auto
  have "py_int ?w (lit ''90000'') = Inr 90000"
    by (simp add: int_defs lit_def serve_def)
  with p d0 have "capacity (df ! 0) = 90000" by simp
  moreover have "td_text (wembley_row ! 1) = lit ''90,000''"
    by (simp add: wembley_row_def plain_def)
  ultimately show ?thesis using e t x o d0 by blast
qed

end
